theory Spec2Isabelle
  imports Main "HOL-Library.Word"
begin

section \<open>JavaScript strings\<close>

text \<open>
  A JavaScript string is a sequence of 16-bit UTF-16 code units; the regular expressions
  of \<^verbatim>\<open>ProcessingHelper.ts\<close> carry no \<^verbatim>\<open>u\<close> flag, so they and \<^verbatim>\<open>trim\<close> work on code
  units. ASCII literals are written through \<open>ascii\<close>, the others as code units.
\<close>

type_synonym uchar = "16 word"
type_synonym ustring = "uchar list"

definition ascii :: "string \<Rightarrow> ustring" where
  "ascii s = map of_char s"

definition nl :: uchar where "nl = 0x0A"
definition cr :: uchar where "cr = 0x0D"
definition backtick :: uchar where "backtick = 0x60"

text \<open>
  The set matched by \<^verbatim>\<open>\s\<close> and stripped by \<^verbatim>\<open>String.prototype.trim\<close>: WhiteSpace
  and LineTerminator of ECMAScript.
\<close>

definition is_space :: "uchar \<Rightarrow> bool" where
  "is_space c \<longleftrightarrow>
     c = 0x09 \<or> c = 0x0A \<or> c = 0x0B \<or> c = 0x0C \<or> c = 0x0D \<or> c = 0x20 \<or> c = 0xA0 \<or>
     c = 0x1680 \<or> (0x2000 \<le> c \<and> c \<le> 0x200A) \<or> c = 0x2028 \<or> c = 0x2029 \<or>
     c = 0x202F \<or> c = 0x205F \<or> c = 0x3000 \<or> c = 0xFEFF"

definition trim :: "ustring \<Rightarrow> ustring" where
  "trim s = rev (dropWhile is_space (rev (dropWhile is_space s)))"

text \<open>\<^verbatim>\<open>xs.join(sep)\<close>\<close>

fun join :: "ustring \<Rightarrow> ustring list \<Rightarrow> ustring" where
  "join sep [] = []"
| "join sep [x] = x"
| "join sep (x # y # ys) = x @ sep @ join sep (y # ys)"

text \<open>If \<open>p\<close> is a prefix of \<open>s\<close>, the rest of \<open>s\<close> after it.\<close>

fun strip_prefix :: "'a list \<Rightarrow> 'a list \<Rightarrow> 'a list option" where
  "strip_prefix [] s = Some s"
| "strip_prefix (p # ps) [] = None"
| "strip_prefix (p # ps) (c # cs) = (if p = c then strip_prefix ps cs else None)"

text \<open>
  The first occurrence of \<open>p\<close> in \<open>s\<close>: what is before it and what is after it
  (\<^verbatim>\<open>s.includes(p)\<close> is that there is one).
\<close>

fun find_sub :: "'a list \<Rightarrow> 'a list \<Rightarrow> ('a list \<times> 'a list) option" where
  "find_sub p [] = (case strip_prefix p [] of Some r \<Rightarrow> Some ([], r) | None \<Rightarrow> None)"
| "find_sub p (c # cs) =
     (case strip_prefix p (c # cs) of
        Some r \<Rightarrow> Some ([], r)
      | None \<Rightarrow> (case find_sub p cs of
                   Some (b, a) \<Rightarrow> Some (c # b, a)
                 | None \<Rightarrow> None))"

definition includes_str :: "ustring \<Rightarrow> ustring \<Rightarrow> bool" where
  "includes_str s p \<longleftrightarrow> find_sub p s \<noteq> None"

text \<open>
  \<^verbatim>\<open>toUpperCase\<close> on the code units it is applied to in \<^verbatim>\<open>formatDirectResponse\<close>:
  one of \<^verbatim>\<open>ABCDabcd\<close>. On ASCII it maps \<^verbatim>\<open>a-z\<close> to \<^verbatim>\<open>A-Z\<close> and keeps the rest.
\<close>

definition toUpperCase :: "uchar \<Rightarrow> uchar" where
  "toUpperCase c = (if 0x61 \<le> c \<and> c \<le> 0x7A then c - 0x20 else c)"

section \<open>The regular expressions of \<^verbatim>\<open>formatDirectResponse\<close>\<close>

text \<open>
  \<^verbatim>\<open>/```([a-zA-Z0-9+#-_]*)\n([\s\S]*?)```/\<close>. In the class, \<^verbatim>\<open>#-_\<close> is a range
  (U+0023 to U+005F). The tag is greedy and the newline after it is outside the class, so
  the tag is the longest run of class characters; the body is lazy, so it ends at the first
  closing fence. The search takes the leftmost start.
\<close>

definition fence :: ustring where
  "fence = [backtick, backtick, backtick]"

definition lang_char :: "uchar \<Rightarrow> bool" where
  "lang_char c \<longleftrightarrow>
     (0x61 \<le> c \<and> c \<le> 0x7A) \<or> (0x41 \<le> c \<and> c \<le> 0x5A) \<or> (0x30 \<le> c \<and> c \<le> 0x39) \<or>
     c = 0x2B \<or> (0x23 \<le> c \<and> c \<le> 0x5F)"

definition code_block_here :: "ustring \<Rightarrow> (ustring \<times> ustring) option" where
  "code_block_here s =
     (case strip_prefix fence s of
        None \<Rightarrow> None
      | Some r \<Rightarrow>
          (case dropWhile lang_char r of
             [] \<Rightarrow> None
           | c # r' \<Rightarrow>
               if c = nl then
                 (case find_sub fence r' of
                    None \<Rightarrow> None
                  | Some (body, _) \<Rightarrow> Some (takeWhile lang_char r, body))
               else None))"

text \<open>A pattern is searched from each position in turn; the leftmost match is taken.\<close>

fun leftmost :: "('a list \<Rightarrow> 'b option) \<Rightarrow> 'a list \<Rightarrow> 'b option" where
  "leftmost f [] = f []"
| "leftmost f (c # cs) = (case f (c # cs) of Some m \<Rightarrow> Some m | None \<Rightarrow> leftmost f cs)"

definition codeBlockMatch :: "ustring \<Rightarrow> (ustring \<times> ustring) option" where
  "codeBlockMatch s = leftmost code_block_here s"

text \<open>
  The letter pattern \<^verbatim>\<open>/(?:L1|L2)[:F]?\s*([ABCDabcd])/\<close>, where \<^verbatim>\<open>L1\<close> is the label
  U+6700 U+7EC8 U+7B54 U+6848 ("final answer"), \<^verbatim>\<open>L2\<close> its last two code units
  ("answer") and \<^verbatim>\<open>F\<close> the fullwidth colon U+FF1A: a label, an optional ASCII or
  fullwidth colon, any white space, one letter. The colon and the white space are greedy,
  and neither can stand for what follows them, so there is one way to match after a label.
\<close>

definition label_final :: ustring where
  "label_final = [0x6700, 0x7EC8, 0x7B54, 0x6848]"

definition label_answer :: ustring where
  "label_answer = [0x7B54, 0x6848]"

definition is_colon :: "uchar \<Rightarrow> bool" where
  "is_colon c \<longleftrightarrow> c = 0x3A \<or> c = 0xFF1A"

definition is_choice :: "uchar \<Rightarrow> bool" where
  "is_choice c \<longleftrightarrow> c = 0x41 \<or> c = 0x42 \<or> c = 0x43 \<or> c = 0x44 \<or>
     c = 0x61 \<or> c = 0x62 \<or> c = 0x63 \<or> c = 0x64"

definition skip_colon :: "ustring \<Rightarrow> ustring" where
  "skip_colon r = (case r of [] \<Rightarrow> [] | c # t \<Rightarrow> if is_colon c then t else c # t)"

definition letter_tail :: "ustring \<Rightarrow> uchar option" where
  "letter_tail r =
     (case dropWhile is_space (skip_colon r) of
        [] \<Rightarrow> None
      | c # _ \<Rightarrow> if is_choice c then Some c else None)"

definition after_label :: "ustring \<Rightarrow> ustring \<Rightarrow> uchar option" where
  "after_label l s = (case strip_prefix l s of None \<Rightarrow> None | Some r \<Rightarrow> letter_tail r)"

definition letter_here :: "ustring \<Rightarrow> uchar option" where
  "letter_here s =
     (case after_label label_final s of
        Some c \<Rightarrow> Some c
      | None \<Rightarrow> after_label label_answer s)"

definition letterMatch :: "ustring \<Rightarrow> uchar option" where
  "letterMatch s = leftmost letter_here s"

text \<open>
  \<^verbatim>\<open>s.split(/\r?\n/)\<close>: the lines between newlines, a carriage return right before a
  newline belonging to the separator.
\<close>

definition drop_cr :: "ustring \<Rightarrow> ustring" where
  "drop_cr l = (if l \<noteq> [] \<and> last l = cr then butlast l else l)"

fun split_nl :: "ustring \<Rightarrow> ustring list" where
  "split_nl [] = [ [] ]"
| "split_nl (c # cs) =
     (if c = nl then [] # split_nl cs
      else (case split_nl cs of [] \<Rightarrow> [ [c] ] | l # ls \<Rightarrow> (c # l) # ls))"

definition split_lines :: "ustring \<Rightarrow> ustring list" where
  "split_lines s = (let ls = split_nl s in map drop_cr (butlast ls) @ [last ls])"

text \<open>
  \<^verbatim>\<open>/^[ABCD]$/i.test(line)\<close>: without the \<^verbatim>\<open>m\<close> flag the anchors are the ends of the
  string, and without the \<^verbatim>\<open>u\<close> flag only \<^verbatim>\<open>a-d\<close> fold to \<^verbatim>\<open>A-D\<close>.
\<close>

definition is_solo :: "ustring \<Rightarrow> bool" where
  "is_solo line \<longleftrightarrow> (case line of [c] \<Rightarrow> is_choice c | _ \<Rightarrow> False)"

definition soloLine :: "ustring \<Rightarrow> ustring option" where
  "soloLine trimmed = List.find is_solo (map trim (split_lines trimmed))"

section \<open>What the patterns mean\<close>

text \<open>
  The patterns above are stated once more, as the texts they describe, to compare the
  matching functions with: a fenced block is an opening fence, a tag of class characters,
  a newline, a body and a closing fence; a labelled letter is a label, at most one colon,
  white space and a letter among \<^verbatim>\<open>ABCDabcd\<close>.
\<close>

definition fenced_block :: "ustring \<Rightarrow> ustring \<Rightarrow> ustring \<Rightarrow> ustring \<Rightarrow> ustring \<Rightarrow> bool" where
  "fenced_block s pre tag body post \<longleftrightarrow>
     s = pre @ fence @ tag @ nl # body @ fence @ post \<and> list_all lang_char tag"

definition has_fenced_block :: "ustring \<Rightarrow> bool" where
  "has_fenced_block s \<longleftrightarrow> (\<exists>pre tag body post. fenced_block s pre tag body post)"

text \<open>The block the search finds: the leftmost one, with the shortest body.\<close>

definition first_fenced_block :: "ustring \<Rightarrow> ustring \<Rightarrow> ustring \<Rightarrow> bool" where
  "first_fenced_block s tag body \<longleftrightarrow>
     (\<exists>pre post. fenced_block s pre tag body post \<and>
        (\<forall>p t b q. fenced_block s p t b q \<longrightarrow>
           length pre < length p \<or> (length pre = length p \<and> length body \<le> length b)))"

definition colon_ok :: "ustring \<Rightarrow> bool" where
  "colon_ok colon \<longleftrightarrow> colon = [] \<or> (\<exists>k. colon = [k] \<and> is_colon k)"

definition labelled_letter :: "ustring \<Rightarrow> ustring \<Rightarrow> ustring \<Rightarrow> uchar \<Rightarrow> bool" where
  "labelled_letter s pre label c \<longleftrightarrow>
     (label = label_final \<or> label = label_answer) \<and>
     (\<exists>colon ws post.
        s = pre @ label @ colon @ ws @ c # post \<and> colon_ok colon \<and>
        list_all is_space ws \<and> is_choice c)"

definition has_labelled_letter :: "ustring \<Rightarrow> bool" where
  "has_labelled_letter s \<longleftrightarrow> (\<exists>pre label c. labelled_letter s pre label c)"

definition first_labelled_letter :: "ustring \<Rightarrow> uchar \<Rightarrow> bool" where
  "first_labelled_letter s c \<longleftrightarrow>
     (\<exists>pre label. labelled_letter s pre label c \<and>
        (\<forall>pre' label' c'. labelled_letter s pre' label' c' \<longrightarrow> length pre \<le> length pre'))"

text \<open>A line that is, once trimmed, one letter among \<^verbatim>\<open>ABCDabcd\<close>; the first such line.\<close>

definition has_solo_line :: "ustring \<Rightarrow> bool" where
  "has_solo_line s \<longleftrightarrow> (\<exists>line \<in> set (split_lines s). \<exists>c. trim line = [c] \<and> is_choice c)"

definition first_solo_line :: "ustring \<Rightarrow> uchar \<Rightarrow> bool" where
  "first_solo_line s c \<longleftrightarrow>
     (\<exists>i < length (split_lines s).
        trim (split_lines s ! i) = [c] \<and> is_choice c \<and>
        (\<forall>j < i. \<not> (\<exists>d. trim (split_lines s ! j) = [d] \<and> is_choice d)))"

section \<open>\<^verbatim>\<open>formatDirectResponse\<close>\<close>

datatype answer_type = Code | Analysis

record formatted_response =
  answer_type :: answer_type
  content :: ustring
  code :: "ustring option"
  final_answer :: "ustring option"
  thoughts :: "ustring list option"
  time_complexity :: "ustring option"
  space_complexity :: "ustring option"
  key_takeaways :: "ustring list option"

record problem_info =
  problem_statement :: ustring
  constraints :: ustring
  example_input :: ustring
  example_output :: ustring
  answer_expectations :: ustring
  supporting_material :: ustring
  evaluation_focus :: ustring
  language_hint :: ustring
  pi_final_answer :: ustring
  final_explanation :: ustring
  reasoning_steps :: "ustring list"
  raw_response :: ustring

text \<open>
  A thrown JavaScript error, with the fields the handlers read: \<^verbatim>\<open>error.message\<close>,
  \<^verbatim>\<open>axios.isCancel(error)\<close>, \<^verbatim>\<open>error.response.status\<close>,
  \<^verbatim>\<open>error.response.data.error.message\<close> and \<^verbatim>\<open>error.status\<close>.
\<close>

record js_error =
  message :: ustring
  is_cancel :: bool
  response_status :: "nat option"
  response_detail :: "ustring option"
  status :: "nat option"

definition Error :: "ustring \<Rightarrow> js_error" where
  "Error m = \<lparr>message = m, is_cancel = False, response_status = None,
              response_detail = None, status = None\<rparr>"

definition msg_no_content :: ustring where
  "msg_no_content = [0x6A21, 0x578B, 0x672A, 0x8FD4, 0x56DE, 0x5185, 0x5BB9, 0xFF0C, 0x8BF7,
     0x91CD, 0x8BD5, 0x6216, 0x68C0, 0x67E5, 0x622A, 0x56FE, 0x8D28, 0x91CF, 0x3002]"

definition reasoningSteps :: "ustring list" where
  "reasoningSteps = [ [0x6A21, 0x578B, 0x57FA, 0x4E8E, 0x622A, 0x56FE, 0x5B8C, 0x6210, 0x5206, 0x6790] ]"

definition code_thoughts :: "ustring list" where
  "code_thoughts = [ [0x4F9D, 0x636E, 0x9898, 0x610F, 0x7ED9, 0x51FA, 0x53EF, 0x8FD0, 0x884C, 0x5B9E, 0x73B0] ]"

definition txt_from_screenshot :: ustring where
  "txt_from_screenshot = [0x9898, 0x76EE, 0x6765, 0x81EA, 0x622A, 0x56FE, 0x5185, 0x5BB9]"

definition txt_best_answer :: ustring where
  "txt_best_answer = [0x6839, 0x636E, 0x9898, 0x610F, 0x7ED9, 0x51FA, 0x6700, 0x4F18, 0x89E3, 0x7B54]"

definition txt_accuracy :: ustring where
  "txt_accuracy = [0x7B54, 0x6848, 0x51C6, 0x786E, 0x6027]"

definition txt_full_code :: ustring where
  "txt_full_code = [0x6A21, 0x578B, 0x76F4, 0x63A5, 0x751F, 0x6210, 0x4E86, 0x5B8C, 0x6574, 0x4EE3,
     0x7801, 0x5B9E, 0x73B0]"

definition txt_gave_option :: ustring where
  "txt_gave_option = [0x6A21, 0x578B, 0x5DF2, 0x76F4, 0x63A5, 0x7ED9, 0x51FA, 0x6700, 0x7EC8, 0x9009, 0x9879]"

definition txt_gave_analysis :: ustring where
  "txt_gave_analysis = [0x6A21, 0x578B, 0x63D0, 0x4F9B, 0x4E86, 0x89E3, 0x9898, 0x5206, 0x6790]"

text \<open>The prefix of the synthesized takeaway, "correct option" and a fullwidth colon.\<close>

definition txt_correct_option :: ustring where
  "txt_correct_option = [0x6B63, 0x786E, 0x9009, 0x9879, 0xFF1A]"

definition NA :: ustring where
  "NA = ascii ''N/A''"

text \<open>The letter of the analysis branch: the labelled pattern first, then a solo line.\<close>

definition chosen_letter :: "ustring \<Rightarrow> ustring option" where
  "chosen_letter trimmed =
     (case letterMatch trimmed of
        Some c \<Rightarrow> Some [toUpperCase c]
      | None \<Rightarrow>
          (case soloLine trimmed of
             Some l \<Rightarrow> Some (map toUpperCase l)
           | None \<Rightarrow> None))"

definition formatDirectResponse ::
  "ustring \<Rightarrow> ustring \<Rightarrow> js_error + (formatted_response \<times> problem_info)" where
  "formatDirectResponse fullText language =
     (let trimmed = trim fullText in
      if trimmed = [] then Inl (Error msg_no_content)
      else
        (case codeBlockMatch trimmed of
           Some (tag, body) \<Rightarrow>
             (let codeLang = (if tag = [] then language else tag);
                  code = trim body
              in Inr
                (\<lparr>answer_type = Code, content = code, code = Some code, final_answer = None,
                  thoughts = Some code_thoughts, time_complexity = None,
                  space_complexity = None, key_takeaways = None\<rparr>,
                 \<lparr>problem_statement = txt_from_screenshot, constraints = NA,
                  example_input = NA, example_output = NA,
                  answer_expectations = txt_best_answer, supporting_material = NA,
                  evaluation_focus = txt_accuracy, language_hint = codeLang,
                  pi_final_answer = NA, final_explanation = txt_full_code,
                  reasoning_steps = reasoningSteps, raw_response = trimmed\<rparr>))
         | None \<Rightarrow>
             (let letter = chosen_letter trimmed
              in Inr
                (\<lparr>answer_type = Analysis, content = trimmed, code = None,
                  final_answer = letter, thoughts = None, time_complexity = None,
                  space_complexity = None,
                  key_takeaways =
                    (case letter of
                       Some l \<Rightarrow> Some [txt_correct_option @ l]
                     | None \<Rightarrow> None)\<rparr>,
                 \<lparr>problem_statement = txt_from_screenshot, constraints = NA,
                  example_input = NA, example_output = NA,
                  answer_expectations = txt_best_answer, supporting_material = NA,
                  evaluation_focus = txt_accuracy, language_hint = NA,
                  pi_final_answer = (case letter of Some l \<Rightarrow> l | None \<Rightarrow> NA),
                  final_explanation =
                    (case letter of
                       Some l \<Rightarrow> txt_gave_option
                     | None \<Rightarrow> txt_gave_analysis),
                  reasoning_steps = reasoningSteps, raw_response = trimmed\<rparr>))))"

section \<open>Configuration and the provider clients\<close>

datatype provider = OpenAI | Gemini | Anthropic | OtherProvider

text \<open>
  What \<^verbatim>\<open>configHelper.loadConfig()\<close> returns. An unset string is the empty string (falsy in
  JavaScript), an unset base URL is \<open>None\<close>.
\<close>

record config =
  apiProvider :: provider
  apiKey :: ustring
  openaiBaseUrl :: "ustring option"
  cfg_geminiBaseUrl :: "ustring option"
  anthropicBaseUrl :: "ustring option"
  openaiModel :: ustring
  geminiModel :: ustring
  anthropicModel :: ustring
  cfg_language :: ustring

record client =
  client_apiKey :: ustring
  baseURL :: "ustring option"
  client_timeout :: nat
  maxRetries :: nat

section \<open>Requests and replies\<close>

datatype openai_part = OText ustring | OImageUrl ustring

datatype openai_message = SystemMessage ustring | UserMessage "openai_part list"

text \<open>\<open>GInlineData mimeType data\<close>\<close>

datatype gemini_part = GInlineData ustring ustring | GText ustring

text \<open>\<open>AImage source_type media_type data\<close>\<close>

datatype anthropic_block = AText ustring | AImage ustring ustring ustring

text \<open>
  A provider call: the model and the messages of a chat completion, the URL and the parts
  of the single user content of a generate call, the model and the content of the single
  user message of a messages call. The sampling parameters are constants of each call and
  are left out.
\<close>

datatype request =
    OpenAIChat ustring "openai_message list"
  | GeminiGenerate ustring "gemini_part list"
  | AnthropicMessages ustring "anthropic_block list"

text \<open>
  \<^verbatim>\<open>response.choices[0]?.message?.content\<close>: a string, an array of parts, or anything else
  (\<^verbatim>\<open>null\<close>, \<^verbatim>\<open>undefined\<close>). A part is a string, an object of type \<^verbatim>\<open>text\<close> with a
  string text, or anything else.
\<close>

datatype openai_reply_part = PartString ustring | PartText ustring | PartOther

datatype openai_content =
    ContentString ustring
  | ContentArray "openai_reply_part list"
  | ContentOther

text \<open>
  A candidate of a generate reply: the \<^verbatim>\<open>text\<close> of each of its parts (\<open>None\<close> when it is
  not a string; no parts when \<^verbatim>\<open>content\<close> or \<^verbatim>\<open>parts\<close> is missing), and its finish
  reason.
\<close>

record gemini_candidate =
  cand_parts :: "ustring option list"
  finishReason :: ustring

record gemini_response =
  candidates :: "gemini_candidate list"
  blockReason :: "ustring option"

text \<open>A content block of a messages reply: its type and its text when that is a string.\<close>

datatype anthropic_reply_block = ReplyBlock ustring "ustring option"

datatype 'r outcome = Resolved 'r | Rejected js_error

text \<open>What the network answers to the call of each provider.\<close>

record network =
  openai_reply :: "openai_content outcome"
  gemini_reply :: "gemini_response outcome"
  anthropic_reply :: "anthropic_reply_block list outcome"

section \<open>The state of the helper and of what it depends on\<close>

datatype view = Queue | Solutions

text \<open>
  A screenshot of a queue: its path, whether \<^verbatim>\<open>fs.existsSync\<close> finds it, and the base64
  text of its bytes (\<open>None\<close> when reading it or its preview throws).
\<close>

record screenshot_file =
  path :: ustring
  on_disk :: bool
  file_data :: "ustring option"

datatype error_payload = ErrorObject js_error | ErrorMessage ustring

text \<open>
  The messages sent to the window. \<open>DEBUG_SUCCESS\<close> carries the debug text the payload is
  formatted from; that formatting (code, bullet points) takes no part in what follows.
\<close>

datatype event =
    INITIAL_START
  | NO_SCREENSHOTS
  | API_KEY_INVALID
  | INITIAL_SOLUTION_ERROR error_payload
  | SOLUTION_SUCCESS formatted_response
  | PROBLEM_EXTRACTED problem_info
  | DEBUG_START
  | DEBUG_SUCCESS ustring
  | DEBUG_ERROR ustring
  | processing_status ustring nat

text \<open>
  The fields of \<^verbatim>\<open>ProcessingHelper\<close>, then its surroundings: the abort controllers made
  so far (a controller is its number) and those aborted, the problem info, flags and view
  behind \<^verbatim>\<open>deps\<close>, the window, the two screenshot queues, and the logs of the messages
  sent to the window and of the provider calls issued.
\<close>

record helper =
  openaiClient :: "client option"
  geminiApiKey :: "ustring option"
  geminiBaseUrl :: "ustring option"
  anthropicClient :: "client option"
  currentProcessingAbortController :: "nat option"
  currentExtraProcessingAbortController :: "nat option"
  controllers :: nat
  aborted :: "nat list"
  problemInfo :: "problem_info option"
  hasDebugged :: bool
  view :: view
  mainWindow :: bool
  windowDestroyed :: bool
  screenshotQueue :: "screenshot_file list"
  extraScreenshotQueue :: "screenshot_file list"
  sent :: "event list"
  requests :: "request list"

datatype 'a result = Success 'a | Failure ustring

definition send :: "event \<Rightarrow> helper \<Rightarrow> helper" where
  "send e s = s\<lparr>sent := sent s @ [e]\<rparr>"

text \<open>\<^verbatim>\<open>if (mainWindow) mainWindow.webContents.send(...)\<close>\<close>

definition send_if_window :: "event \<Rightarrow> helper \<Rightarrow> helper" where
  "send_if_window e s = (if mainWindow s then send e s else s)"

definition issue :: "request \<Rightarrow> helper \<Rightarrow> helper" where
  "issue r s = s\<lparr>requests := requests s @ [r]\<rparr>"

text \<open>\<^verbatim>\<open>new AbortController()\<close>: the next number.\<close>

definition new_controller :: "helper \<Rightarrow> nat \<times> helper" where
  "new_controller s = (controllers s, s\<lparr>controllers := Suc (controllers s)\<rparr>)"

section \<open>\<^verbatim>\<open>initializeAIClient\<close>\<close>

definition new_client :: "ustring \<Rightarrow> ustring option \<Rightarrow> client" where
  "new_client k b = \<lparr>client_apiKey = k, baseURL = b, client_timeout = 60000, maxRetries = 2\<rparr>"

definition clear_clients :: "helper \<Rightarrow> helper" where
  "clear_clients s =
     s\<lparr>openaiClient := None, geminiApiKey := None, geminiBaseUrl := None,
       anthropicClient := None\<rparr>"

text \<open>
  The argument is what \<^verbatim>\<open>loadConfig\<close> does: \<open>Inl\<close> when it throws, which the
  \<^verbatim>\<open>catch\<close> answers by clearing the three credentials (and not the Gemini base URL).
  In the pipelines below \<^verbatim>\<open>loadConfig\<close> returns the configuration \<open>cfg\<close> of the run.
\<close>

definition initializeAIClient :: "js_error + config \<Rightarrow> helper \<Rightarrow> helper" where
  "initializeAIClient loaded s =
     (case loaded of
        Inl e \<Rightarrow> s\<lparr>openaiClient := None, geminiApiKey := None, anthropicClient := None\<rparr>
      | Inr cfg \<Rightarrow>
          (case apiProvider cfg of
             OpenAI \<Rightarrow>
               if apiKey cfg \<noteq> [] then
                 s\<lparr>openaiClient := Some (new_client (apiKey cfg) (openaiBaseUrl cfg)),
                   geminiApiKey := None, geminiBaseUrl := None, anthropicClient := None\<rparr>
               else clear_clients s
           | Gemini \<Rightarrow>
               (let s1 = s\<lparr>openaiClient := None, anthropicClient := None\<rparr> in
                if apiKey cfg \<noteq> [] then
                  s1\<lparr>geminiApiKey := Some (apiKey cfg), geminiBaseUrl := cfg_geminiBaseUrl cfg\<rparr>
                else clear_clients s1)
           | Anthropic \<Rightarrow>
               (let s1 = s\<lparr>openaiClient := None, geminiApiKey := None, geminiBaseUrl := None\<rparr> in
                if apiKey cfg \<noteq> [] then
                  s1\<lparr>anthropicClient := Some (new_client (apiKey cfg) (anthropicBaseUrl cfg))\<rparr>
                else clear_clients s1)
           | OtherProvider \<Rightarrow> s))"

text \<open>No credential is held, as in a fresh \<^verbatim>\<open>ProcessingHelper\<close> before its constructor initializes the client.\<close>

definition no_clients :: "helper \<Rightarrow> bool" where
  "no_clients s \<longleftrightarrow> openaiClient s = None \<and> geminiApiKey s = None \<and> geminiBaseUrl s = None \<and>
     anthropicClient s = None"

text \<open>The provider families that hold a credential.\<close>

definition live :: "helper \<Rightarrow> provider list" where
  "live s =
     (if openaiClient s \<noteq> None then [OpenAI] else []) @
     (if geminiApiKey s \<noteq> None then [Gemini] else []) @
     (if anthropicClient s \<noteq> None then [Anthropic] else [])"

section \<open>The solve pipeline: \<^verbatim>\<open>processScreenshotsHelper\<close>\<close>

text \<open>
  \<^verbatim>\<open>toLowerCase\<close>, exact on the code units that become ASCII letters of \<^verbatim>\<open>token\<close>, the one
  word searched in a lowered message: \<^verbatim>\<open>A-Z\<close> and the Kelvin sign.
\<close>

definition toLowerCase :: "uchar \<Rightarrow> uchar" where
  "toLowerCase c =
     (if 0x41 \<le> c \<and> c \<le> 0x5A then c + 0x20 else if c = 0x212A then 0x6B else c)"

text \<open>\<^verbatim>\<open>a || b\<close> on strings\<close>

definition or_else :: "ustring \<Rightarrow> ustring \<Rightarrow> ustring" where
  "or_else a b = (if a \<noteq> [] then a else b)"

definition opt_string :: "ustring option \<Rightarrow> ustring" where
  "opt_string x = (case x of None \<Rightarrow> [] | Some t \<Rightarrow> t)"

definition getLanguage :: "config \<Rightarrow> ustring option \<Rightarrow> ustring" where
  "getLanguage cfg windowLanguage =
     (if cfg_language cfg \<noteq> [] then cfg_language cfg
      else (case windowLanguage of Some l \<Rightarrow> l | None \<Rightarrow> ascii ''python''))"

definition instruction :: "ustring \<Rightarrow> ustring" where
  "instruction language =
     [0x8BF7, 0x9605, 0x8BFB, 0x6211, 0x63A5, 0x4E0B, 0x6765, 0x63D0, 0x4F9B, 0x7684] @
     [0x9898, 0x76EE, 0x622A, 0x56FE, 0xFF1A, 0x000A] @
     ascii ''1) '' @
     [0x5982, 0x679C, 0x662F, 0x5355, 0x9009, 0x9898, 0xFF1A, 0x53EA, 0x9700, 0x5728] @
     [0x7B2C, 0x4E00, 0x884C, 0x8F93, 0x51FA, 0x201C, 0x6700, 0x7EC8, 0x7B54, 0x6848] @
     [0xFF1A] @
     ascii ''A/B/C/D'' @
     [0x201D, 0x4E2D, 0x7684, 0x4E00, 0x4E2A, 0x5B57, 0x6BCD, 0xFF1B, 0x7B2C, 0x4E8C] @
     [0x884C, 0x7528, 0x4E0D, 0x8D85, 0x8FC7] @
     ascii ''20'' @
     [0x4E2A, 0x5B57, 0x89E3, 0x91CA, 0x539F, 0x56E0, 0x3002, 0x000A] @
     ascii ''2) '' @
     [0x5982, 0x679C, 0x662F, 0x4EE3, 0x7801, 0x9898, 0xFF1A, 0x76F4, 0x63A5, 0x7ED9] @
     [0x51FA, 0x5B8C, 0x6574, 0x3001, 0x53EF, 0x8FD0, 0x884C, 0x3001, 0x901A, 0x8FC7] @
     [0x5E38, 0x89C1, 0x8FB9, 0x754C, 0x6848, 0x4F8B, 0x7684, 0x4EE3, 0x7801, 0x3002] @
     [0x4F7F, 0x7528, 0x9898, 0x9762, 0x6216, 0x5E38, 0x89C4, 0x9ED8, 0x8BA4, 0x8BED] @
     [0x8A00, 0xFF1B, 0x5982, 0x9898, 0x9762, 0x672A, 0x6307, 0x5B9A, 0xFF0C, 0x4F18] @
     [0x5148, 0x4F7F, 0x7528] @
     ascii '' '' @
     language @
     [0x3002, 0x8BF7, 0x7528] @
     ascii '' Markdown '' @
     [0x4EE3, 0x7801, 0x5757, 0x6807, 0x6CE8, 0x8BED, 0x8A00, 0xFF0C, 0x4F8B, 0x5982] @
     ascii '' '' @
     [0x0060, 0x0060, 0x0060] @
     language @
     [0x000A] @
     ascii ''...'' @
     [0x0060, 0x0060, 0x0060, 0x3002, 0x89E3, 0x91CA, 0x5C3D, 0x91CF, 0x7B80, 0x77ED] @
     [0x3002, 0x000A] @
     ascii ''3) '' @
     [0x5982, 0x679C, 0x662F, 0x4EE3, 0x7801, 0x9898, 0x5219, 0x7ED9, 0x51FA, 0x53EF] @
     [0x590D, 0x5236, 0x7684, 0x4EE3, 0x7801, 0xFF0C, 0x5982, 0x679C, 0x662F, 0x9009] @
     [0x62E9, 0x9898, 0xFF08, 0x9605, 0x8BFB, 0x7406, 0x89E3, 0x6216, 0x56FE, 0x5F62] @
     [0x903B, 0x8F91, 0xFF09, 0x5219, 0x7ED9, 0x51FA, 0x5177, 0x4F53] @
     ascii ''ABCD'' @
     [0x9009, 0x9879, 0x3002, 0x000A] @
     ascii ''4) '' @
     [0x4E0D, 0x8981, 0x8F93, 0x51FA] @
     ascii ''JSON'' @
     [0xFF0C, 0x4E5F, 0x4E0D, 0x8981, 0x591A, 0x4F59, 0x524D, 0x8A00, 0x3002]"

definition openai_solve_content :: "ustring \<Rightarrow> ustring list \<Rightarrow> openai_part list" where
  "openai_solve_content instr imageDataList =
     OText instr # map (\<lambda>d. OImageUrl (ascii ''data:image/png;base64,'' @ d)) imageDataList"

definition gemini_solve_parts :: "ustring \<Rightarrow> ustring list \<Rightarrow> gemini_part list" where
  "gemini_solve_parts instr imageDataList =
     map (\<lambda>d. GInlineData (ascii ''image/png'') d) imageDataList @ [GText instr]"

definition anthropic_solve_content :: "ustring \<Rightarrow> ustring list \<Rightarrow> anthropic_block list" where
  "anthropic_solve_content instr imageDataList =
     AText instr # map (\<lambda>d. AImage (ascii ''base64'') (ascii ''image/png'') d) imageDataList"

definition gemini_url :: "config \<Rightarrow> helper \<Rightarrow> ustring" where
  "gemini_url cfg s =
     (let rawBase = or_else (opt_string (geminiBaseUrl s))
                      (or_else (opt_string (cfg_geminiBaseUrl cfg))
                         (ascii ''https://generativelanguage.googleapis.com''));
          base = (if rawBase \<noteq> [] \<and> last rawBase = 0x2F then butlast rawBase else rawBase)
      in base @ ascii ''/models/'' @ geminiModel cfg @ ascii '':generateContent?key='' @
         opt_string (geminiApiKey s))"

definition openai_extract :: "openai_content \<Rightarrow> ustring" where
  "openai_extract c =
     (case c of
        ContentString t \<Rightarrow> t
      | ContentArray ps \<Rightarrow>
          join [nl] (map (\<lambda>p. case p of PartString t \<Rightarrow> t | PartText t \<Rightarrow> t | PartOther \<Rightarrow> []) ps)
      | ContentOther \<Rightarrow> [])"

definition MAX_TOKENS :: ustring where
  "MAX_TOKENS = ascii ''MAX_TOKENS''"

definition collect_text :: "ustring option list \<Rightarrow> ustring list" where
  "collect_text ps =
     List.map_filter
       (\<lambda>p. case p of None \<Rightarrow> None | Some t \<Rightarrow> if trim t \<noteq> [] then Some (trim t) else None) ps"

definition gemini_extract :: "gemini_response \<Rightarrow> js_error + ustring" where
  "gemini_extract r =
     (case candidates r of
        [] \<Rightarrow>
          Inl (Error (ascii ''Empty response from Gemini API ('' @
                      or_else (opt_string (blockReason r)) (ascii ''no-candidates'') @ ascii '')''))
      | firstCandidate # _ \<Rightarrow>
          (let fullText = trim (join [nl] (collect_text (cand_parts firstCandidate))) in
           if fullText = [] \<and> finishReason firstCandidate \<noteq> MAX_TOKENS
           then Inl (Error (ascii ''Gemini response missing text''))
           else Inr fullText))"

definition anthropic_extract :: "anthropic_reply_block list \<Rightarrow> ustring" where
  "anthropic_extract blocks =
     trim (join [nl]
       (List.map_filter
          (\<lambda>b. case b of ReplyBlock ty tx \<Rightarrow>
                  (case tx of None \<Rightarrow> None
                   | Some t \<Rightarrow> if ty = ascii ''text'' then Some (trim t) else None))
          blocks))"

text \<open>The \<^verbatim>\<open>catch\<close> of \<^verbatim>\<open>processScreenshotsHelper\<close>.\<close>

definition msg_canceled :: ustring where
  "msg_canceled = ascii ''Processing was canceled by the user.''"

definition solve_catch :: "provider \<Rightarrow> js_error \<Rightarrow> formatted_response result" where
  "solve_catch provider e =
     (if is_cancel e then Failure msg_canceled
      else if provider = OpenAI \<and> response_status e = Some 401 then
        Failure (ascii ''Invalid OpenAI API key. Please check your settings.'')
      else if provider = OpenAI \<and> response_status e = Some 429 then
        Failure (ascii ''OpenAI API rate limit exceeded or insufficient credits. Please try again later.'')
      else if provider = OpenAI \<and> response_status e = Some 500 then
        Failure (ascii ''OpenAI server error. Please try again later.'')
      else if provider = Gemini \<and> opt_string (response_detail e) \<noteq> [] then
        Failure (opt_string (response_detail e))
      else if provider = Anthropic \<and> status e = Some 429 then
        Failure (ascii ''Claude API rate limit exceeded. Please wait a few minutes before trying again.'')
      else if provider = Anthropic \<and>
              (status e = Some 413 \<or> includes_str (map toLowerCase (message e)) (ascii ''token'')) then
        Failure (ascii ''Your screenshots contain too much information for Claude to process. Switch to OpenAI or Gemini in settings which can handle larger inputs.'')
      else Failure (or_else (message e) (ascii ''Failed to process screenshots. Please try again.'')))"

definition provider_label :: "provider \<Rightarrow> ustring" where
  "provider_label p =
     (case p of
        OpenAI \<Rightarrow> ascii ''OpenAI''
      | Gemini \<Rightarrow> ascii ''Gemini''
      | Anthropic \<Rightarrow> ascii ''Claude''
      | OtherProvider \<Rightarrow> [0x6A21, 0x578B])"

definition txt_done :: ustring where
  "txt_done = [0x0020, 0x5DF2, 0x5B8C, 0x6210, 0x5206, 0x6790, 0x5E76, 0x751F, 0x6210, 0x7B54, 0x6848]"

text \<open>From the extracted text to the result: lines 2456 to 2475, with the \<^verbatim>\<open>catch\<close>.\<close>

definition classify_and_publish ::
  "provider \<Rightarrow> ustring \<Rightarrow> ustring \<Rightarrow> helper \<Rightarrow> formatted_response result \<times> helper" where
  "classify_and_publish provider language fullText s =
     (case formatDirectResponse fullText language of
        Inl e \<Rightarrow> (solve_catch provider e, s)
      | Inr (formattedResponse, pinfo) \<Rightarrow>
          (let s1 = s\<lparr>problemInfo := Some pinfo\<rparr>;
               s2 = send_if_window (PROBLEM_EXTRACTED pinfo) s1;
               s3 = send_if_window (processing_status (provider_label provider @ txt_done) 100) s2
           in (Success formattedResponse, s3\<lparr>extraScreenshotQueue := []\<rparr>)))"

text \<open>
  The helper up to its network call: \<open>Inl\<close> is a result returned without a call, \<open>Inr\<close>
  is that the call has been issued and the helper waits for its outcome.
\<close>

definition helper_request ::
  "config \<Rightarrow> ustring option \<Rightarrow> ustring list \<Rightarrow> helper \<Rightarrow>
     (formatted_response result + unit) \<times> helper" where
  "helper_request cfg windowLanguage imageDataList s =
     (let instr = instruction (getLanguage cfg windowLanguage) in
      case apiProvider cfg of
        OpenAI \<Rightarrow>
          (let s1 = (if openaiClient s = None then initializeAIClient (Inr cfg) s else s) in
           if openaiClient s1 = None then
             (Inl (Failure (ascii ''OpenAI API key not configured or invalid. Please check your settings.'')), s1)
           else
             (Inr (), issue (OpenAIChat (openaiModel cfg)
                              [UserMessage (openai_solve_content instr imageDataList)]) s1))
      | Gemini \<Rightarrow>
          if geminiApiKey s = None then
            (Inl (Failure (ascii ''Gemini API key not configured. Please check your settings.'')), s)
          else
            (Inr (), issue (GeminiGenerate (gemini_url cfg s)
                             (gemini_solve_parts instr imageDataList)) s)
      | Anthropic \<Rightarrow>
          (let s1 = (if anthropicClient s = None then initializeAIClient (Inr cfg) s else s) in
           if anthropicClient s1 = None then
             (Inl (Failure (ascii ''Anthropic API key not configured. Please check your settings.'')), s1)
           else
             (Inr (), issue (AnthropicMessages (anthropicModel cfg)
                              (anthropic_solve_content instr imageDataList)) s1))
      | OtherProvider \<Rightarrow> (Inl (Failure (ascii ''Unsupported provider'')), s))"

text \<open>The helper from the outcome of its network call on.\<close>

definition helper_reply ::
  "config \<Rightarrow> ustring option \<Rightarrow> network \<Rightarrow> helper \<Rightarrow> formatted_response result \<times> helper" where
  "helper_reply cfg windowLanguage net s =
     (let language = getLanguage cfg windowLanguage in
      case apiProvider cfg of
        OpenAI \<Rightarrow>
          (case openai_reply net of
             Rejected e \<Rightarrow> (solve_catch OpenAI e, s)
           | Resolved c \<Rightarrow> classify_and_publish OpenAI language (openai_extract c) s)
      | Gemini \<Rightarrow>
          (case gemini_reply net of
             Rejected e \<Rightarrow> (solve_catch Gemini e, s)
           | Resolved r \<Rightarrow>
               (case gemini_extract r of
                  Inl e \<Rightarrow> (solve_catch Gemini e, s)
                | Inr fullText \<Rightarrow> classify_and_publish Gemini language fullText s))
      | Anthropic \<Rightarrow>
          (case anthropic_reply net of
             Rejected e \<Rightarrow> (solve_catch Anthropic e, s)
           | Resolved blocks \<Rightarrow>
               classify_and_publish Anthropic language (anthropic_extract blocks) s)
      | OtherProvider \<Rightarrow> (Failure (ascii ''Unsupported provider''), s))"

definition processScreenshotsHelper ::
  "config \<Rightarrow> ustring option \<Rightarrow> network \<Rightarrow> ustring list \<Rightarrow> helper \<Rightarrow>
     formatted_response result \<times> helper" where
  "processScreenshotsHelper cfg windowLanguage net imageDataList s =
     (case helper_request cfg windowLanguage imageDataList s of
        (Inl r, s1) \<Rightarrow> (r, s1)
      | (Inr u, s1) \<Rightarrow> helper_reply cfg windowLanguage net s1)"

section \<open>The debug pipeline: \<^verbatim>\<open>processExtraScreenshotsHelper\<close>\<close>

definition debug_system_prompt :: "ustring" where
  "debug_system_prompt =
     ascii ''You are a coding interview assistant helping debug and impro'' @
     ascii ''ve solutions. Analyze these screenshots which include either'' @
     ascii '' error messages, incorrect outputs, or test cases, and provi'' @
     ascii ''de detailed debugging help.'' @
     [0x000A, 0x000A] @
     ascii ''Your response MUST follow this exact structure with these se'' @
     ascii ''ction headers (use ### for headers):'' @
     [0x000A] @
     ascii ''### Issues Identified'' @
     [0x000A] @
     ascii ''- List each issue as a bullet point with clear explanation'' @
     [0x000A, 0x000A] @
     ascii ''### Specific Improvements and Corrections'' @
     [0x000A] @
     ascii ''- List specific code changes needed as bullet points'' @
     [0x000A, 0x000A] @
     ascii ''### Optimizations'' @
     [0x000A] @
     ascii ''- List any performance optimizations if applicable'' @
     [0x000A, 0x000A] @
     ascii ''### Explanation of Changes Needed'' @
     [0x000A] @
     ascii ''Here provide a clear explanation of why the changes are need'' @
     ascii ''ed'' @
     [0x000A, 0x000A] @
     ascii ''### Key Points'' @
     [0x000A] @
     ascii ''- Summary bullet points of the most important takeaways'' @
     [0x000A, 0x000A] @
     ascii ''If you include code examples, use proper markdown code block'' @
     ascii ''s with language specification (e.g. '' @
     [0x0060, 0x0060, 0x0060] @
     ascii ''java).''"

definition debug_user_text :: "ustring \<Rightarrow> ustring \<Rightarrow> ustring" where
  "debug_user_text statement language =
     ascii ''I'' @
     [0x0027] @
     ascii ''m solving this coding problem: '' @
     [0x0022] @
     statement @
     [0x0022] @
     ascii '' in '' @
     language @
     ascii ''. I need help with debugging or improving my solution. Here '' @
     ascii ''are screenshots of my code, the errors or test cases. Please'' @
     ascii '' provide a detailed analysis with:'' @
     [0x000A] @
     ascii ''1. What issues you found in my code'' @
     [0x000A] @
     ascii ''2. Specific improvements and corrections'' @
     [0x000A] @
     ascii ''3. Any optimizations that would make the solution better'' @
     [0x000A] @
     ascii ''4. A clear explanation of the changes needed''"

definition debug_prompt_gemini :: "ustring \<Rightarrow> ustring \<Rightarrow> ustring" where
  "debug_prompt_gemini statement language =
     [0x000A] @
     ascii ''You are a coding interview assistant helping debug and impro'' @
     ascii ''ve solutions. Analyze these screenshots which include either'' @
     ascii '' error messages, incorrect outputs, or test cases, and provi'' @
     ascii ''de detailed debugging help.'' @
     [0x000A, 0x000A] @
     ascii ''I'' @
     [0x0027] @
     ascii ''m solving this coding problem: '' @
     [0x0022] @
     statement @
     [0x0022] @
     ascii '' in '' @
     language @
     ascii ''. I need help with debugging or improving my solution.'' @
     [0x000A, 0x000A] @
     ascii ''YOUR RESPONSE MUST FOLLOW THIS EXACT STRUCTURE WITH THESE SE'' @
     ascii ''CTION HEADERS:'' @
     [0x000A] @
     ascii ''### Issues Identified'' @
     [0x000A] @
     ascii ''- List each issue as a bullet point with clear explanation'' @
     [0x000A, 0x000A] @
     ascii ''### Specific Improvements and Corrections'' @
     [0x000A] @
     ascii ''- List specific code changes needed as bullet points'' @
     [0x000A, 0x000A] @
     ascii ''### Optimizations'' @
     [0x000A] @
     ascii ''- List any performance optimizations if applicable'' @
     [0x000A, 0x000A] @
     ascii ''### Explanation of Changes Needed'' @
     [0x000A] @
     ascii ''Here provide a clear explanation of why the changes are need'' @
     ascii ''ed'' @
     [0x000A, 0x000A] @
     ascii ''### Key Points'' @
     [0x000A] @
     ascii ''- Summary bullet points of the most important takeaways'' @
     [0x000A, 0x000A] @
     ascii ''If you include code examples, use proper markdown code block'' @
     ascii ''s with language specification (e.g. '' @
     [0x0060, 0x0060, 0x0060] @
     ascii ''java).'' @
     [0x000A]"

definition debug_prompt_anthropic :: "ustring \<Rightarrow> ustring \<Rightarrow> ustring" where
  "debug_prompt_anthropic statement language =
     [0x000A] @
     ascii ''You are a coding interview assistant helping debug and impro'' @
     ascii ''ve solutions. Analyze these screenshots which include either'' @
     ascii '' error messages, incorrect outputs, or test cases, and provi'' @
     ascii ''de detailed debugging help.'' @
     [0x000A, 0x000A] @
     ascii ''I'' @
     [0x0027] @
     ascii ''m solving this coding problem: '' @
     [0x0022] @
     statement @
     [0x0022] @
     ascii '' in '' @
     language @
     ascii ''. I need help with debugging or improving my solution.'' @
     [0x000A, 0x000A] @
     ascii ''YOUR RESPONSE MUST FOLLOW THIS EXACT STRUCTURE WITH THESE SE'' @
     ascii ''CTION HEADERS:'' @
     [0x000A] @
     ascii ''### Issues Identified'' @
     [0x000A] @
     ascii ''- List each issue as a bullet point with clear explanation'' @
     [0x000A, 0x000A] @
     ascii ''### Specific Improvements and Corrections'' @
     [0x000A] @
     ascii ''- List specific code changes needed as bullet points'' @
     [0x000A, 0x000A] @
     ascii ''### Optimizations'' @
     [0x000A] @
     ascii ''- List any performance optimizations if applicable'' @
     [0x000A, 0x000A] @
     ascii ''### Explanation of Changes Needed'' @
     [0x000A] @
     ascii ''Here provide a clear explanation of why the changes are need'' @
     ascii ''ed'' @
     [0x000A, 0x000A] @
     ascii ''### Key Points'' @
     [0x000A] @
     ascii ''- Summary bullet points of the most important takeaways'' @
     [0x000A, 0x000A] @
     ascii ''If you include code examples, use proper markdown code block'' @
     ascii ''s with language specification.'' @
     [0x000A]"

definition debug_data_url :: "ustring \<Rightarrow> openai_part" where
  "debug_data_url d = OImageUrl (ascii ''data:image/png;base64,'' @ d)"

text \<open>
  The debug text before it is formatted: a string, or one of the values on which
  \<^verbatim>\<open>debugContent.match\<close> throws a \<^verbatim>\<open>TypeError\<close>.
\<close>

datatype debug_content = DString ustring | DNull | DUndefined | DArray

definition quoted_match :: ustring where
  "quoted_match = [0x27] @ ascii ''match'' @ [0x27]"

definition type_error_message :: "debug_content \<Rightarrow> ustring" where
  "type_error_message d =
     (case d of
        DNull \<Rightarrow> ascii ''Cannot read properties of null (reading '' @ quoted_match @ ascii '')''
      | DUndefined \<Rightarrow>
          ascii ''Cannot read properties of undefined (reading '' @ quoted_match @ ascii '')''
      | _ \<Rightarrow> ascii ''debugContent.match is not a function'')"

text \<open>From the debug text to the result: lines 2818 to 2858.\<close>

definition debug_finish :: "debug_content \<Rightarrow> helper \<Rightarrow> ustring result \<times> helper" where
  "debug_finish debugContent s =
     (let s1 = send_if_window (processing_status (ascii ''Debug analysis complete'') 100) s in
      case debugContent of
        DString t \<Rightarrow> (Success t, s1)
      | d \<Rightarrow> (Failure (type_error_message d), s1))"

definition gemini_extract_debug :: "gemini_response \<Rightarrow> js_error + ustring" where
  "gemini_extract_debug r =
     (case candidates r of
        [] \<Rightarrow> Inl (Error (ascii ''Empty response from Gemini API''))
      | firstCandidate # _ \<Rightarrow>
          (case cand_parts firstCandidate of
             [] \<Rightarrow> Inl (Error (ascii ''Gemini response content.parts is empty or missing''))
           | p # _ \<Rightarrow>
               (let debugContent = opt_string p in
                if trim debugContent = []
                then Inl (Error (ascii ''Gemini response missing text content''))
                else Inr debugContent)))"

definition msg_gemini_debug_failed :: ustring where
  "msg_gemini_debug_failed =
     ascii ''Failed to process debug request with Gemini API. Please check your API key or try again later.''"

definition anthropic_debug_catch :: "js_error \<Rightarrow> ustring result" where
  "anthropic_debug_catch e =
     (if status e = Some 429 then
        Failure (ascii ''Claude API rate limit exceeded. Please wait a few minutes before trying again.'')
      else if status e = Some 413 \<or> (message e \<noteq> [] \<and> includes_str (message e) (ascii ''token'')) then
        Failure (ascii ''Your screenshots contain too much information for Claude to process. Switch to OpenAI or Gemini in settings which can handle larger inputs.'')
      else
        Failure (ascii ''Failed to process debug request with Anthropic API. Please check your API key or try again later.''))"

definition msg_no_problem_info :: ustring where
  "msg_no_problem_info = ascii ''No problem info available''"

text \<open>The debug helper up to its network call.\<close>

definition debug_request ::
  "config \<Rightarrow> ustring option \<Rightarrow> ustring list \<Rightarrow> helper \<Rightarrow> (ustring result + unit) \<times> helper" where
  "debug_request cfg windowLanguage imageDataList s =
     (case problemInfo s of
        None \<Rightarrow> (Inl (Failure msg_no_problem_info), s)
      | Some pinfo \<Rightarrow>
          (let language = getLanguage cfg windowLanguage;
               s1 = send_if_window (processing_status (ascii ''Processing debug screenshots...'') 30) s
           in case apiProvider cfg of
                OpenAI \<Rightarrow>
                  if openaiClient s1 = None then
                    (Inl (Failure (ascii ''OpenAI API key not configured. Please check your settings.'')), s1)
                  else
                    (Inr (),
                     issue (OpenAIChat (openaiModel cfg)
                              [SystemMessage debug_system_prompt,
                               UserMessage (OText (debug_user_text (problem_statement pinfo) language)
                                            # map debug_data_url imageDataList)])
                       (send_if_window (processing_status
                          (ascii ''Analyzing code and generating debug feedback...'') 60) s1))
              | Gemini \<Rightarrow>
                  if geminiApiKey s1 = None then
                    (Inl (Failure (ascii ''Gemini API key not configured. Please check your settings.'')), s1)
                  else
                    (Inr (),
                     issue (GeminiGenerate (gemini_url cfg s1)
                              (GText (debug_prompt_gemini (problem_statement pinfo) language)
                               # map (\<lambda>d. GInlineData (ascii ''image/png'') d) imageDataList))
                       (send_if_window (processing_status
                          (ascii ''Analyzing code and generating debug feedback with Gemini...'') 60) s1))
              | Anthropic \<Rightarrow>
                  if anthropicClient s1 = None then
                    (Inl (Failure (ascii ''Anthropic API key not configured. Please check your settings.'')), s1)
                  else
                    (Inr (),
                     issue (AnthropicMessages (anthropicModel cfg)
                              (AText (debug_prompt_anthropic (problem_statement pinfo) language)
                               # map (\<lambda>d. AImage (ascii ''base64'') (ascii ''image/png'') d) imageDataList))
                       (send_if_window (processing_status
                          (ascii ''Analyzing code and generating debug feedback with Claude...'') 60) s1))
              | OtherProvider \<Rightarrow>
                  (case debug_finish DUndefined s1 of (r, s2) \<Rightarrow> (Inl r, s2))))"

text \<open>
  The debug helper from the outcome of its network call on. A chat completion content that
  is neither a string nor an array is taken as \<^verbatim>\<open>null\<close>.
\<close>

definition debug_reply ::
  "config \<Rightarrow> network \<Rightarrow> helper \<Rightarrow> ustring result \<times> helper" where
  "debug_reply cfg net s =
     (case apiProvider cfg of
        OpenAI \<Rightarrow>
          (case openai_reply net of
             Rejected e \<Rightarrow>
               (Failure (or_else (message e) (ascii ''Failed to process debug request'')), s)
           | Resolved c \<Rightarrow>
               debug_finish
                 (case c of ContentString t \<Rightarrow> DString t | ContentArray ps \<Rightarrow> DArray
                  | ContentOther \<Rightarrow> DNull) s)
      | Gemini \<Rightarrow>
          (case gemini_reply net of
             Rejected e \<Rightarrow> (Failure msg_gemini_debug_failed, s)
           | Resolved r \<Rightarrow>
               (case gemini_extract_debug r of
                  Inl e \<Rightarrow> (Failure msg_gemini_debug_failed, s)
                | Inr t \<Rightarrow> debug_finish (DString t) s))
      | Anthropic \<Rightarrow>
          (case anthropic_reply net of
             Rejected e \<Rightarrow> (anthropic_debug_catch e, s)
           | Resolved blocks \<Rightarrow>
               (case blocks of
                  [] \<Rightarrow>
                    (anthropic_debug_catch
                       (Error (ascii ''Cannot read properties of undefined (reading '' @
                               [0x27] @ ascii ''text'' @ [0x27] @ ascii '')'')), s)
                | ReplyBlock ty tx # _ \<Rightarrow>
                    debug_finish (case tx of Some t \<Rightarrow> DString t | None \<Rightarrow> DUndefined) s))
      | OtherProvider \<Rightarrow> debug_finish DUndefined s)"

definition processExtraScreenshotsHelper ::
  "config \<Rightarrow> ustring option \<Rightarrow> network \<Rightarrow> ustring list \<Rightarrow> helper \<Rightarrow> ustring result \<times> helper" where
  "processExtraScreenshotsHelper cfg windowLanguage net imageDataList s =
     (case debug_request cfg windowLanguage imageDataList s of
        (Inl r, s1) \<Rightarrow> (r, s1)
      | (Inr u, s1) \<Rightarrow> debug_reply cfg net s1)"

section \<open>\<^verbatim>\<open>processScreenshots\<close> and \<^verbatim>\<open>cancelOngoingRequests\<close>\<close>

definition verify_client :: "config \<Rightarrow> helper \<Rightarrow> bool \<times> helper" where
  "verify_client cfg s =
     (if apiProvider cfg = OpenAI \<and> openaiClient s = None then
        (let s1 = initializeAIClient (Inr cfg) s in
         if openaiClient s1 = None then (False, send API_KEY_INVALID s1) else (True, s1))
      else if apiProvider cfg = Gemini \<and> geminiApiKey s = None then
        (let s1 = initializeAIClient (Inr cfg) s in
         if geminiApiKey s1 = None then (False, send API_KEY_INVALID s1) else (True, s1))
      else if apiProvider cfg = Anthropic \<and> anthropicClient s = None then
        (let s1 = initializeAIClient (Inr cfg) s in
         if anthropicClient s1 = None then (False, send API_KEY_INVALID s1) else (True, s1))
      else (True, s))"

text \<open>The data of the screenshots that could be read.\<close>

definition valid_data :: "screenshot_file list \<Rightarrow> ustring list" where
  "valid_data files = List.map_filter file_data files"

definition is_key_error :: "ustring \<Rightarrow> bool" where
  "is_key_error m \<longleftrightarrow>
     includes_str m (ascii ''API Key'') \<or> includes_str m (ascii ''OpenAI'') \<or>
     includes_str m (ascii ''Gemini'') \<or> includes_str m (ascii ''Anthropic'')"

text \<open>What a solve run does with the result of its helper, with the \<^verbatim>\<open>finally\<close>.\<close>

definition solve_result :: "formatted_response result \<Rightarrow> helper \<Rightarrow> helper" where
  "solve_result r s =
     (let s1 =
        (case r of
           Failure err \<Rightarrow>
             (send (if is_key_error err then API_KEY_INVALID
                    else INITIAL_SOLUTION_ERROR (ErrorMessage err)) s)\<lparr>view := Queue\<rparr>
         | Success d \<Rightarrow> (send (SOLUTION_SUCCESS d) s)\<lparr>view := Solutions\<rparr>)
      in s1\<lparr>currentProcessingAbortController := None\<rparr>)"

text \<open>The \<^verbatim>\<open>catch\<close> of the solve run, with the \<^verbatim>\<open>finally\<close>.\<close>

definition solve_throw :: "js_error \<Rightarrow> helper \<Rightarrow> helper" where
  "solve_throw e s =
     (let s1 = send (INITIAL_SOLUTION_ERROR (ErrorObject e)) s;
          s2 = send (INITIAL_SOLUTION_ERROR (ErrorMessage
                 (if is_cancel e then msg_canceled
                  else or_else (message e) (ascii ''Server error. Please try again.'')))) s1
      in s2\<lparr>view := Queue, currentProcessingAbortController := None\<rparr>)"

text \<open>
  A run of \<^verbatim>\<open>processScreenshots\<close> either returns before any network call or waits for
  the outcome of the one call of its helper; other code of the helper can run while it
  waits. The earlier \<^verbatim>\<open>await\<close>s of a run (the previews of the screenshots, the language)
  are taken as immediate.
\<close>

datatype run = Returned | AwaitingSolve | AwaitingDebug

definition solve_begin :: "config \<Rightarrow> ustring option \<Rightarrow> helper \<Rightarrow> run \<times> helper" where
  "solve_begin cfg windowLanguage s =
     (let s1 = send INITIAL_START s in
      if screenshotQueue s1 = [] then (Returned, send NO_SCREENSHOTS s1)
      else
        (let existingScreenshots = filter on_disk (screenshotQueue s1) in
         if existingScreenshots = [] then (Returned, send NO_SCREENSHOTS s1)
         else
           (case new_controller s1 of
              (c, s2) \<Rightarrow>
                (let s3 = s2\<lparr>currentProcessingAbortController := Some c\<rparr>;
                     validScreenshots = valid_data existingScreenshots
                 in if validScreenshots = [] then
                      (Returned, solve_throw (Error (ascii ''Failed to load screenshot data'')) s3)
                    else
                      (case helper_request cfg windowLanguage validScreenshots s3 of
                         (Inl r, s4) \<Rightarrow> (Returned, solve_result r s4)
                       | (Inr u, s4) \<Rightarrow> (AwaitingSolve, s4))))))"

definition solve_end :: "config \<Rightarrow> ustring option \<Rightarrow> network \<Rightarrow> helper \<Rightarrow> helper" where
  "solve_end cfg windowLanguage net s =
     (case helper_reply cfg windowLanguage net s of (r, s1) \<Rightarrow> solve_result r s1)"

definition debug_result :: "ustring result \<Rightarrow> helper \<Rightarrow> helper" where
  "debug_result r s =
     (let s1 =
        (case r of
           Success d \<Rightarrow> send (DEBUG_SUCCESS d) (s\<lparr>hasDebugged := True\<rparr>)
         | Failure err \<Rightarrow> send (DEBUG_ERROR err) s)
      in s1\<lparr>currentExtraProcessingAbortController := None\<rparr>)"

definition debug_throw :: "js_error \<Rightarrow> helper \<Rightarrow> helper" where
  "debug_throw e s =
     (send (DEBUG_ERROR (if is_cancel e then ascii ''Extra processing was canceled by the user.''
                         else message e)) s)
       \<lparr>currentExtraProcessingAbortController := None\<rparr>"

definition debug_begin :: "config \<Rightarrow> ustring option \<Rightarrow> helper \<Rightarrow> run \<times> helper" where
  "debug_begin cfg windowLanguage s =
     (if extraScreenshotQueue s = [] then (Returned, send NO_SCREENSHOTS s)
      else
        (let existingExtraScreenshots = filter on_disk (extraScreenshotQueue s) in
         if existingExtraScreenshots = [] then (Returned, send NO_SCREENSHOTS s)
         else
           (case new_controller (send DEBUG_START s) of
              (c, s2) \<Rightarrow>
                (let s3 = s2\<lparr>currentExtraProcessingAbortController := Some c\<rparr>;
                     allPaths = screenshotQueue s3 @ existingExtraScreenshots;
                     validScreenshots = valid_data (filter on_disk allPaths)
                 in if validScreenshots = [] then
                      (Returned,
                       debug_throw (Error (ascii ''Failed to load screenshot data for debugging'')) s3)
                    else
                      (case debug_request cfg windowLanguage validScreenshots s3 of
                         (Inl r, s4) \<Rightarrow> (Returned, debug_result r s4)
                       | (Inr u, s4) \<Rightarrow> (AwaitingDebug, s4))))))"

definition debug_end :: "config \<Rightarrow> network \<Rightarrow> helper \<Rightarrow> helper" where
  "debug_end cfg net s = (case debug_reply cfg net s of (r, s1) \<Rightarrow> debug_result r s1)"

text \<open>\<^verbatim>\<open>processScreenshots\<close> up to the network call of its helper, and from its outcome on.\<close>

definition processScreenshots_begin :: "config \<Rightarrow> ustring option \<Rightarrow> helper \<Rightarrow> run \<times> helper" where
  "processScreenshots_begin cfg windowLanguage s =
     (if \<not> mainWindow s then (Returned, s)
      else
        (case verify_client cfg s of
           (False, s1) \<Rightarrow> (Returned, s1)
         | (True, s1) \<Rightarrow>
             if view s1 = Queue then solve_begin cfg windowLanguage s1
             else debug_begin cfg windowLanguage s1))"

definition processScreenshots_end ::
  "run \<Rightarrow> config \<Rightarrow> ustring option \<Rightarrow> network \<Rightarrow> helper \<Rightarrow> helper" where
  "processScreenshots_end r cfg windowLanguage net s =
     (case r of
        Returned \<Rightarrow> s
      | AwaitingSolve \<Rightarrow> solve_end cfg windowLanguage net s
      | AwaitingDebug \<Rightarrow> debug_end cfg net s)"

text \<open>A run that nothing interleaves with.\<close>

definition processScreenshots :: "config \<Rightarrow> ustring option \<Rightarrow> network \<Rightarrow> helper \<Rightarrow> helper" where
  "processScreenshots cfg windowLanguage net s =
     (case processScreenshots_begin cfg windowLanguage s of
        (r, s1) \<Rightarrow> processScreenshots_end r cfg windowLanguage net s1)"

definition cancelOngoingRequests :: "helper \<Rightarrow> helper" where
  "cancelOngoingRequests s =
     (let s1 = (case currentProcessingAbortController s of
                  Some c \<Rightarrow> s\<lparr>aborted := aborted s @ [c], currentProcessingAbortController := None\<rparr>
                | None \<Rightarrow> s);
          s2 = (case currentExtraProcessingAbortController s1 of
                  Some c \<Rightarrow> s1\<lparr>aborted := aborted s1 @ [c],
                              currentExtraProcessingAbortController := None\<rparr>
                | None \<Rightarrow> s1);
          wasCancelled = (currentProcessingAbortController s \<noteq> None \<or>
                          currentExtraProcessingAbortController s \<noteq> None);
          s3 = s2\<lparr>hasDebugged := False, problemInfo := None\<rparr>
      in if wasCancelled \<and> mainWindow s3 \<and> \<not> windowDestroyed s3 then send NO_SCREENSHOTS s3 else s3)"

section \<open>Example texts\<close>

text \<open>A labelled letter (label, fullwidth colon, B) followed by a fenced block.\<close>

definition ex_both :: ustring where
  "ex_both =
     label_final @ [0xFF1A, 0x42, nl] @ fence @ ascii ''py'' @ [nl] @ ascii ''x = 1'' @ [nl] @ fence"

text \<open>
  The reply of the end-to-end scenario: the label, a fullwidth colon and C on the first
  line, a second line of eight code units with a C among them.
\<close>

definition ex_choice :: ustring where
  "ex_choice =
     label_final @ [0xFF1A, 0x43, nl, 0x56E0, 0x4E3A, 0x43, 0x6700, 0x7B26, 0x5408, 0x9898, 0x610F]"

definition ex_solo :: ustring where
  "ex_solo = ascii ''I think'' @ [cr, nl] @ ascii ''  b '' @ [nl] @ ascii ''is right''"

definition ex_prose :: ustring where
  "ex_prose = ascii '' It depends on the context. ''"

definition ex_blank :: ustring where
  "ex_blank = [0x20, nl, 0x3000, 0x09]"

text \<open>A reply with the label in English.\<close>

definition ex_english :: ustring where
  "ex_english = ascii ''Final answer: C'' @ [nl] @ ascii ''because C fits best''"

section \<open>Notions the properties are stated with\<close>

text \<open>
  The parts of a request in order, each either a text or an image with its base64 data
  (for a chat completion the data is what follows the data URL prefix).
\<close>

datatype part_view = VText ustring | VImage ustring

definition data_url_payload :: "ustring \<Rightarrow> ustring" where
  "data_url_payload u =
     (case strip_prefix (ascii ''data:image/png;base64,'') u of Some d \<Rightarrow> d | None \<Rightarrow> u)"

definition openai_part_view :: "openai_part \<Rightarrow> part_view" where
  "openai_part_view p = (case p of OText t \<Rightarrow> VText t | OImageUrl u \<Rightarrow> VImage (data_url_payload u))"

definition gemini_part_view :: "gemini_part \<Rightarrow> part_view" where
  "gemini_part_view p = (case p of GText t \<Rightarrow> VText t | GInlineData m d \<Rightarrow> VImage d)"

definition anthropic_block_view :: "anthropic_block \<Rightarrow> part_view" where
  "anthropic_block_view b = (case b of AText t \<Rightarrow> VText t | AImage st mt d \<Rightarrow> VImage d)"

text \<open>
  The parts of the single user content of a request. A chat completion that is not one user
  message (one with a system message, say) has no such content.
\<close>

fun request_view :: "request \<Rightarrow> part_view list" where
  "request_view (OpenAIChat m [UserMessage ps]) = map openai_part_view ps"
| "request_view (OpenAIChat m msgs) = []"
| "request_view (GeminiGenerate url ps) = map gemini_part_view ps"
| "request_view (AnthropicMessages m bs) = map anthropic_block_view bs"

definition images_of :: "request \<Rightarrow> ustring list" where
  "images_of r = List.map_filter (\<lambda>v. case v of VImage d \<Rightarrow> Some d | VText t \<Rightarrow> None) (request_view r)"

text \<open>
  The order of the parts each vendor expects: for a generate call the images and then the
  instruction, for the other two the instruction and then the images.
\<close>

definition vendor_order :: "provider \<Rightarrow> ustring \<Rightarrow> ustring list \<Rightarrow> part_view list" where
  "vendor_order p instr imgs =
     (if p = Gemini then map VImage imgs @ [VText instr] else VText instr # map VImage imgs)"

text \<open>The provider a request goes to.\<close>

fun request_provider :: "request \<Rightarrow> provider" where
  "request_provider (OpenAIChat m msgs) = OpenAI"
| "request_provider (GeminiGenerate url ps) = Gemini"
| "request_provider (AnthropicMessages m bs) = Anthropic"

text \<open>Every image of the request is tagged as base64 data of media type \<^verbatim>\<open>image/png\<close>.\<close>

fun media_tagged :: "request \<Rightarrow> bool" where
  "media_tagged (OpenAIChat m msgs) =
     list_all (\<lambda>msg. case msg of SystemMessage t \<Rightarrow> True
                 | UserMessage ps \<Rightarrow>
                     list_all (\<lambda>p. case p of OText t \<Rightarrow> True
                                 | OImageUrl u \<Rightarrow>
                                     strip_prefix (ascii ''data:image/png;base64,'') u \<noteq> None) ps)
       msgs"
| "media_tagged (GeminiGenerate url ps) =
     list_all (\<lambda>p. case p of GText t \<Rightarrow> True | GInlineData m d \<Rightarrow> m = ascii ''image/png'') ps"
| "media_tagged (AnthropicMessages m bs) =
     list_all (\<lambda>b. case b of AText t \<Rightarrow> True
                 | AImage st mt d \<Rightarrow> st = ascii ''base64'' \<and> mt = ascii ''image/png'') bs"

text \<open>
  The solve helper has a client for the configured provider or can make one: for OpenAI and
  Anthropic a client is held or the configuration has a key (the helper then initializes the
  client), for Gemini a key is held.
\<close>

definition client_ready :: "config \<Rightarrow> helper \<Rightarrow> bool" where
  "client_ready cfg s =
     (case apiProvider cfg of
        OpenAI \<Rightarrow> openaiClient s \<noteq> None \<or> apiKey cfg \<noteq> []
      | Gemini \<Rightarrow> geminiApiKey s \<noteq> None
      | Anthropic \<Rightarrow> anthropicClient s \<noteq> None \<or> apiKey cfg \<noteq> []
      | OtherProvider \<Rightarrow> False)"

text \<open>A part of a candidate that gives no text: no string, or only white space.\<close>

definition blank_part :: "ustring option \<Rightarrow> bool" where
  "blank_part p \<longleftrightarrow> list_all is_space (opt_string p)"

text \<open>The call of the configured provider is rejected with the error \<open>e\<close>.\<close>

definition call_rejected :: "config \<Rightarrow> network \<Rightarrow> js_error \<Rightarrow> bool" where
  "call_rejected cfg net e \<longleftrightarrow>
     (case apiProvider cfg of
        OpenAI \<Rightarrow> openai_reply net = Rejected e
      | Gemini \<Rightarrow> gemini_reply net = Rejected e
      | Anthropic \<Rightarrow> anthropic_reply net = Rejected e
      | OtherProvider \<Rightarrow> False)"

text \<open>A rejection by \<^verbatim>\<open>axios\<close> after its signal was aborted.\<close>

definition cancel_error :: js_error where
  "cancel_error = \<lparr>message = ascii ''canceled'', is_cancel = True, response_status = None,
                    response_detail = None, status = None\<rparr>"

text \<open>The text the solve helper extracts from the reply, when the call resolves and the extraction succeeds.\<close>

definition extracted_text :: "config \<Rightarrow> network \<Rightarrow> ustring option" where
  "extracted_text cfg net =
     (case apiProvider cfg of
        OpenAI \<Rightarrow> (case openai_reply net of Resolved c \<Rightarrow> Some (openai_extract c) | Rejected e \<Rightarrow> None)
      | Gemini \<Rightarrow>
          (case gemini_reply net of
             Resolved r \<Rightarrow> (case gemini_extract r of Inr t \<Rightarrow> Some t | Inl e \<Rightarrow> None)
           | Rejected e \<Rightarrow> None)
      | Anthropic \<Rightarrow>
          (case anthropic_reply net of Resolved bs \<Rightarrow> Some (anthropic_extract bs) | Rejected e \<Rightarrow> None)
      | OtherProvider \<Rightarrow> None)"

section \<open>Example states\<close>

text \<open>A helper with a window, nothing configured and nothing queued.\<close>

definition helper0 :: helper where
  "helper0 =
     \<lparr>openaiClient = None, geminiApiKey = None, geminiBaseUrl = None, anthropicClient = None,
      currentProcessingAbortController = None, currentExtraProcessingAbortController = None,
      controllers = 0, aborted = [], problemInfo = None, hasDebugged = False, view = Queue,
      mainWindow = True, windowDestroyed = False, screenshotQueue = [],
      extraScreenshotQueue = [], sent = [], requests = []\<rparr>"

definition cfg_of :: "provider \<Rightarrow> ustring \<Rightarrow> config" where
  "cfg_of p k =
     \<lparr>apiProvider = p, apiKey = k, openaiBaseUrl = None, cfg_geminiBaseUrl = None,
      anthropicBaseUrl = None, openaiModel = ascii ''gpt-4o'', geminiModel = ascii ''gemini-2.0-flash'',
      anthropicModel = ascii ''claude-3-7-sonnet'', cfg_language = ascii ''python''\<rparr>"

definition shot :: "ustring \<Rightarrow> ustring \<Rightarrow> screenshot_file" where
  "shot p d = \<lparr>path = p, on_disk = True, file_data = Some d\<rparr>"

definition two_images :: "ustring list" where
  "two_images = [ascii ''QUJD'', ascii ''REVG'']"

text \<open>A helper configured for Gemini with one screenshot in the main queue.\<close>

definition helper_gemini :: helper where
  "helper_gemini =
     (initializeAIClient (Inr (cfg_of Gemini (ascii ''key-1''))) helper0)
       \<lparr>screenshotQueue := [shot (ascii ''a.png'') (ascii ''QUJD'')]\<rparr>"

text \<open>Replies: a text with a solo line B, a cancellation, a truncated candidate with no text.\<close>

definition gemini_text :: "ustring \<Rightarrow> ustring \<Rightarrow> gemini_response" where
  "gemini_text t f = \<lparr>candidates = [\<lparr>cand_parts = [Some t], finishReason = f\<rparr>], blockReason = None\<rparr>"

definition net_openai :: "openai_content outcome \<Rightarrow> network" where
  "net_openai c = \<lparr>openai_reply = c, gemini_reply = Rejected (Error []),
                   anthropic_reply = Resolved []\<rparr>"

definition net_of :: "gemini_response outcome \<Rightarrow> network" where
  "net_of g = \<lparr>openai_reply = Resolved ContentOther, gemini_reply = g,
               anthropic_reply = Resolved []\<rparr>"

text \<open>
  Two solve runs of a helper configured for Gemini: the first waits for its call, the second
  starts and waits too, then the call of the first resolves with the text B.
\<close>

definition cfg_gemini :: config where
  "cfg_gemini = cfg_of Gemini (ascii ''key-1'')"

definition net_answer_b :: network where
  "net_answer_b = net_of (Resolved (gemini_text (ascii ''B'') (ascii ''STOP'')))"

definition run_a_waiting :: helper where
  "run_a_waiting = snd (processScreenshots_begin cfg_gemini None helper_gemini)"

definition run_b_waiting :: helper where
  "run_b_waiting = snd (processScreenshots_begin cfg_gemini None run_a_waiting)"

definition run_a_done :: helper where
  "run_a_done = processScreenshots_end AwaitingSolve cfg_gemini None net_answer_b run_b_waiting"

text \<open>The same helper in the solutions view with an extra screenshot and no problem info.\<close>

definition helper_debug :: helper where
  "helper_debug = helper_gemini\<lparr>view := Solutions,
      extraScreenshotQueue := [shot (ascii ''b.png'') (ascii ''REVG'')]\<rparr>"

section \<open>Properties of the strings and of the patterns\<close>

lemma strip_prefix_iff: "strip_prefix p s = Some r \<longleftrightarrow> s = p @ r"
  by (induction p s rule: strip_prefix.induct) auto

lemma strip_prefix_None_iff: "strip_prefix p s = None \<longleftrightarrow> (\<forall>r. s \<noteq> p @ r)"
  using strip_prefix_iff [of p s] by (cases "strip_prefix p s") auto

lemma find_sub_sound: "find_sub p s = Some (b, a) \<Longrightarrow> s = b @ p @ a"
proof (induction s arbitrary: b a)
  case Nil
  then show ?case by (auto simp: strip_prefix_iff split: option.splits)
next
  case (Cons c cs)
  then show ?case by (auto simp: strip_prefix_iff split: option.splits)
qed

lemma find_sub_first: "find_sub p s = Some (b, a) \<Longrightarrow> s = b' @ p @ a' \<Longrightarrow> length b \<le> length b'"
proof (induction s arbitrary: b a b')
  case Nil
  then show ?case by (auto split: option.splits)
next
  case (Cons c cs)
  show ?case
  proof (cases "strip_prefix p (c # cs)")
    case (Some r)
    then show ?thesis using Cons.prems(1) by simp
  next
    case None
    with Cons.prems(1) obtain b0 where b: "b = c # b0" and f: "find_sub p cs = Some (b0, a)"
      by (auto split: option.splits)
    from None Cons.prems(2) have "b' \<noteq> []" by (auto simp: strip_prefix_None_iff)
    then obtain b1 where b': "b' = c # b1" using Cons.prems(2) by (cases b') auto
    with Cons.prems(2) have "cs = b1 @ p @ a'" by simp
    from Cons.IH [OF f this] show ?thesis by (simp add: b b')
  qed
qed

lemma find_sub_complete: "\<exists>b' a'. find_sub p (b @ p @ a) = Some (b', a')"
proof (induction b)
  case Nil
  have "strip_prefix p (p @ a) = Some a" by (simp add: strip_prefix_iff)
  then show ?case by (cases "p @ a") auto
next
  case (Cons c b)
  then show ?case by (auto split: option.splits)
qed

lemma find_sub_None_iff: "find_sub p s = None \<longleftrightarrow> (\<forall>b a. s \<noteq> b @ p @ a)"
proof
  assume n: "find_sub p s = None"
  show "\<forall>b a. s \<noteq> b @ p @ a"
  proof (intro allI notI)
    fix b a assume "s = b @ p @ a"
    with find_sub_complete [of p b a] n show False by auto
  qed
next
  assume "\<forall>b a. s \<noteq> b @ p @ a"
  then show "find_sub p s = None"
    using find_sub_sound [of p s] by (cases "find_sub p s") auto
qed

lemma trim_Nil_iff: "trim s = [] \<longleftrightarrow> (\<forall>c\<in>set s. is_space c)"
proof -
  have "trim s = [] \<longleftrightarrow> dropWhile is_space (rev (dropWhile is_space s)) = []"
    by (simp add: trim_def)
  also have "\<dots> \<longleftrightarrow> (\<forall>c\<in>set (dropWhile is_space s). is_space c)"
    by (simp add: dropWhile_eq_Nil_conv)
  also have "\<dots> \<longleftrightarrow> (\<forall>c\<in>set s. is_space c)"
  proof
    assume a: "\<forall>c\<in>set (dropWhile is_space s). is_space c"
    have "dropWhile is_space s = []"
    proof (rule ccontr)
      assume "dropWhile is_space s \<noteq> []"
      then have "\<not> is_space (hd (dropWhile is_space s))" by (rule hd_dropWhile)
      moreover have "hd (dropWhile is_space s) \<in> set (dropWhile is_space s)"
        using \<open>dropWhile is_space s \<noteq> []\<close> by simp
      ultimately show False using a by blast
    qed
    then show "\<forall>c\<in>set s. is_space c" by (simp add: dropWhile_eq_Nil_conv)
  next
    assume "\<forall>c\<in>set s. is_space c"
    then show "\<forall>c\<in>set (dropWhile is_space s). is_space c"
      by (auto dest: set_dropWhileD)
  qed
  finally show ?thesis .
qed

lemma trim_decomp:
  "\<exists>l r. s = l @ trim s @ r \<and> (\<forall>c\<in>set l. is_space c) \<and> (\<forall>c\<in>set r. is_space c)"
proof -
  let ?d = "dropWhile is_space s"
  have s: "s = takeWhile is_space s @ ?d" by simp
  have "rev ?d = takeWhile is_space (rev ?d) @ dropWhile is_space (rev ?d)" by simp
  then have "?d = rev (dropWhile is_space (rev ?d)) @ rev (takeWhile is_space (rev ?d))"
    by (metis rev_append rev_rev_ident)
  then have d: "?d = trim s @ rev (takeWhile is_space (rev ?d))" by (simp add: trim_def)
  have "s = takeWhile is_space s @ trim s @ rev (takeWhile is_space (rev ?d))"
    using s d by metis
  moreover have "\<forall>c\<in>set (takeWhile is_space s). is_space c" by (auto dest: set_takeWhileD)
  moreover have "\<forall>c\<in>set (rev (takeWhile is_space (rev ?d))). is_space c"
    by (auto dest: set_takeWhileD)
  ultimately show ?thesis by blast
qed

text \<open>Trimming keeps a piece that starts and ends with a character that is not white space.\<close>

lemma trim_keeps:
  assumes "s = l @ m @ r" "m \<noteq> []" "\<not> is_space (hd m)" "\<not> is_space (last m)"
  shows "\<exists>l' r'. trim s = l' @ m @ r'"
proof -
  obtain x m' where m: "m = x # m'" using assms(2) by (cases m) auto
  have x: "\<not> is_space x" using assms(3) m by simp
  have d1: "dropWhile is_space s = dropWhile is_space l @ m @ r"
    unfolding assms(1) using x m by (simp add: dropWhile_append)
  let ?l = "dropWhile is_space l"
  have lm: "last m \<in> set (rev m)" using assms(2) by simp
  have "rev (?l @ m @ r) = rev r @ rev m @ rev ?l" by simp
  have d2: "dropWhile is_space (rev r @ rev m @ rev ?l) = dropWhile is_space (rev r) @ rev m @ rev ?l"
  proof (cases "\<forall>c\<in>set (rev r). is_space c")
    case True
    have "rev m = rev (butlast m @ [last m])" using assms(2) by simp
    then have rm: "rev m = last m # rev (butlast m)" by simp
    have "dropWhile is_space (rev m @ rev ?l) = rev m @ rev ?l"
      by (subst (1 2) rm) (simp add: assms(4))
    with True show ?thesis by (simp add: dropWhile_append dropWhile_eq_Nil_conv)
  next
    case False
    then obtain x where "x \<in> set (rev r)" "\<not> is_space x" by blast
    then show ?thesis by (rule dropWhile_append1)
  qed
  have "trim s = rev (dropWhile is_space (rev r) @ rev m @ rev ?l)"
    by (simp add: trim_def d1 d2)
  also have "\<dots> = ?l @ m @ rev (dropWhile is_space (rev r))" by simp
  finally show ?thesis by blast
qed

lemma leftmost_Some_drop:
  "leftmost f s = Some m \<Longrightarrow>
     \<exists>n\<le>length s. f (drop n s) = Some m \<and> (\<forall>k<n. f (drop k s) = None)"
proof (induction s)
  case Nil
  then show ?case by simp
next
  case (Cons c cs)
  show ?case
  proof (cases "f (c # cs)")
    case (Some m')
    with Cons.prems have "f (drop 0 (c # cs)) = Some m" by simp
    then show ?thesis by (intro exI [of _ 0]) simp
  next
    case None
    with Cons.prems have "leftmost f cs = Some m" by simp
    from Cons.IH [OF this] obtain n where
      n: "n \<le> length cs" "f (drop n cs) = Some m" "\<forall>k<n. f (drop k cs) = None"
      by auto
    have "\<forall>k<Suc n. f (drop k (c # cs)) = None"
    proof (intro allI impI)
      fix k assume "k < Suc n"
      then show "f (drop k (c # cs)) = None"
        using None n(3) by (cases k) simp_all
    qed
    with n(1,2) show ?thesis by (intro exI [of _ "Suc n"]) simp
  qed
qed

lemma leftmost_None_drop:
  "leftmost f s = None \<longleftrightarrow> (\<forall>n\<le>length s. f (drop n s) = None)"
proof (induction s)
  case Nil
  then show ?case by simp
next
  case (Cons c cs)
  have "(\<forall>n\<le>length (c # cs). f (drop n (c # cs)) = None) \<longleftrightarrow>
        f (c # cs) = None \<and> (\<forall>n\<le>length cs. f (drop n cs) = None)"
  proof
    assume a: "\<forall>n\<le>length (c # cs). f (drop n (c # cs)) = None"
    from a [rule_format, of 0] have "f (c # cs) = None" by simp
    moreover have "\<forall>n\<le>length cs. f (drop n cs) = None"
    proof (intro allI impI)
      fix n assume "n \<le> length cs"
      with a [rule_format, of "Suc n"] show "f (drop n cs) = None" by simp
    qed
    ultimately show "f (c # cs) = None \<and> (\<forall>n\<le>length cs. f (drop n cs) = None)" ..
  next
    assume a: "f (c # cs) = None \<and> (\<forall>n\<le>length cs. f (drop n cs) = None)"
    show "\<forall>n\<le>length (c # cs). f (drop n (c # cs)) = None"
    proof (intro allI impI)
      fix n assume "n \<le> length (c # cs)"
      then show "f (drop n (c # cs)) = None" using a by (cases n) simp_all
    qed
  qed
  moreover have "leftmost f (c # cs) = None \<longleftrightarrow> f (c # cs) = None \<and> leftmost f cs = None"
    by (cases "f (c # cs)") simp_all
  ultimately show ?case using Cons.IH by simp
qed

lemma leftmost_Some:
  assumes "leftmost f s = Some m"
  shows "\<exists>pre suf. s = pre @ suf \<and> f suf = Some m \<and>
       (\<forall>pre' suf'. s = pre' @ suf' \<and> length pre' < length pre \<longrightarrow> f suf' = None)"
proof -
  from leftmost_Some_drop [OF assms] obtain n where
    n: "n \<le> length s" "f (drop n s) = Some m" "\<forall>k<n. f (drop k s) = None" by auto
  have "\<forall>pre' suf'. s = pre' @ suf' \<and> length pre' < length (take n s) \<longrightarrow> f suf' = None"
  proof (intro allI impI)
    fix pre' suf' assume a: "s = pre' @ suf' \<and> length pre' < length (take n s)"
    then have "length pre' < n" by simp
    with n(3) have "f (drop (length pre') s) = None" by simp
    moreover have "drop (length pre') s = suf'" using a by simp
    ultimately show "f suf' = None" by simp
  qed
  moreover have "s = take n s @ drop n s" by simp
  ultimately show ?thesis using n(2) by (intro exI [of _ "take n s"] exI [of _ "drop n s"]) simp
qed

lemma leftmost_None_iff: "leftmost f s = None \<longleftrightarrow> (\<forall>pre suf. s = pre @ suf \<longrightarrow> f suf = None)"
proof
  assume l: "leftmost f s = None"
  show "\<forall>pre suf. s = pre @ suf \<longrightarrow> f suf = None"
  proof (intro allI impI)
    fix pre suf assume a: "s = pre @ suf"
    then have "length pre \<le> length s" "drop (length pre) s = suf" by simp_all
    with l show "f suf = None" unfolding leftmost_None_drop by metis
  qed
next
  assume a: "\<forall>pre suf. s = pre @ suf \<longrightarrow> f suf = None"
  have "\<forall>n\<le>length s. f (drop n s) = None"
  proof (intro allI impI)
    fix n
    have "s = take n s @ drop n s" by simp
    with a show "f (drop n s) = None" by blast
  qed
  then show "leftmost f s = None" unfolding leftmost_None_drop .
qed

lemma not_lang_char_nl: "\<not> lang_char nl"
  by (simp add: lang_char_def nl_def)

lemma code_block_here_sound:
  assumes "code_block_here s = Some (tag, body)"
  shows "\<exists>post. fenced_block s [] tag body post"
proof -
  from assms obtain r where r: "strip_prefix fence s = Some r"
    by (auto simp: code_block_here_def split: option.splits)
  from assms r obtain r' where d: "dropWhile lang_char r = nl # r'"
    by (auto simp: code_block_here_def split: option.splits list.splits if_splits)
  from assms r d obtain post where f: "find_sub fence r' = Some (body, post)"
    and t: "tag = takeWhile lang_char r"
    by (auto simp: code_block_here_def split: option.splits)
  have "r = takeWhile lang_char r @ dropWhile lang_char r" by simp
  with d t have "r = tag @ nl # r'" by simp
  moreover have "r' = body @ fence @ post" using f by (rule find_sub_sound)
  moreover have "s = fence @ r" using r by (simp add: strip_prefix_iff)
  moreover have "list_all lang_char tag" unfolding t list_all_iff by (auto dest: set_takeWhileD)
  ultimately have "fenced_block s [] tag body post" by (simp add: fenced_block_def)
  then show ?thesis ..
qed

lemma code_block_here_complete:
  assumes "fenced_block s [] t b q"
  shows "\<exists>body. code_block_here s = Some (t, body) \<and> length body \<le> length b"
proof -
  from assms have s: "s = fence @ t @ nl # b @ fence @ q" and lt: "list_all lang_char t"
    by (simp_all add: fenced_block_def)
  have r: "strip_prefix fence s = Some (t @ nl # b @ fence @ q)"
    by (simp add: strip_prefix_iff s)
  have all: "\<And>x. x \<in> set t \<Longrightarrow> lang_char x" using lt by (simp add: list_all_iff)
  have d: "dropWhile lang_char (t @ nl # b @ fence @ q) = nl # b @ fence @ q"
    using all by (simp add: dropWhile_append2 not_lang_char_nl)
  have tk: "takeWhile lang_char (t @ nl # b @ fence @ q) = t"
    using all by (simp add: takeWhile_append2 not_lang_char_nl)
  obtain body post where f: "find_sub fence (b @ fence @ q) = Some (body, post)"
    using find_sub_complete [of fence b q] by blast
  then have "length body \<le> length b" by (rule find_sub_first) simp
  moreover have "code_block_here s = Some (t, body)"
    by (simp add: code_block_here_def r d tk f)
  ultimately show ?thesis by blast
qed

lemma fenced_block_shift:
  "fenced_block (pre @ suf) pre t b q \<longleftrightarrow> fenced_block suf [] t b q"
  by (simp add: fenced_block_def)

lemma fenced_block_prefix: "fenced_block s pre t b q \<Longrightarrow> \<exists>suf. s = pre @ suf"
  by (auto simp: fenced_block_def)

lemma codeBlockMatch_first:
  assumes "codeBlockMatch s = Some (tag, body)"
  shows "first_fenced_block s tag body"
proof -
  from assms obtain pre suf where s: "s = pre @ suf" and h: "code_block_here suf = Some (tag, body)"
    and mn: "\<forall>pre' suf'. s = pre' @ suf' \<and> length pre' < length pre \<longrightarrow> code_block_here suf' = None"
    using leftmost_Some [of code_block_here s "(tag, body)"] unfolding codeBlockMatch_def by blast
  from code_block_here_sound [OF h] obtain post where fb0: "fenced_block suf [] tag body post" ..
  then have fb: "fenced_block s pre tag body post" by (simp add: s fenced_block_shift)
  have "\<forall>p t b q. fenced_block s p t b q \<longrightarrow>
           length pre < length p \<or> (length pre = length p \<and> length body \<le> length b)"
  proof (intro allI impI)
    fix p t b q assume a: "fenced_block s p t b q"
    then obtain suf' where s': "s = p @ suf'" by (auto dest: fenced_block_prefix)
    with a have a0: "fenced_block suf' [] t b q" by (simp add: fenced_block_shift)
    from code_block_here_complete [OF a0] obtain body' where
      c: "code_block_here suf' = Some (t, body')" and le: "length body' \<le> length b" by blast
    show "length pre < length p \<or> (length pre = length p \<and> length body \<le> length b)"
    proof (cases "length p < length pre")
      case True
      with mn s' have "code_block_here suf' = None" by blast
      with c show ?thesis by simp
    next
      case False
      show ?thesis
      proof (cases "length p = length pre")
        case True
        have "p @ suf' = pre @ suf" using s s' by simp
        with True have "p = pre \<and> suf' = suf" by simp
        with c h le show ?thesis by simp
      next
        case False
        with \<open>\<not> length p < length pre\<close> show ?thesis by simp
      qed
    qed
  qed
  with fb show ?thesis unfolding first_fenced_block_def by blast
qed

lemma codeBlockMatch_None_iff: "codeBlockMatch s = None \<longleftrightarrow> \<not> has_fenced_block s"
proof
  assume n: "codeBlockMatch s = None"
  show "\<not> has_fenced_block s"
  proof
    assume "has_fenced_block s"
    then obtain p t b q where a: "fenced_block s p t b q" unfolding has_fenced_block_def by blast
    then obtain suf where s: "s = p @ suf" by (auto dest: fenced_block_prefix)
    with a have "fenced_block suf [] t b q" by (simp add: fenced_block_shift)
    from code_block_here_complete [OF this] obtain body where "code_block_here suf = Some (t, body)"
      by blast
    moreover from n s have "code_block_here suf = None"
      unfolding codeBlockMatch_def leftmost_None_iff by blast
    ultimately show False by simp
  qed
next
  assume a: "\<not> has_fenced_block s"
  show "codeBlockMatch s = None"
  proof (cases "codeBlockMatch s")
    case None
    then show ?thesis .
  next
    case (Some m)
    obtain tag body where "m = (tag, body)" by (cases m)
    with Some have "first_fenced_block s tag body" by (simp add: codeBlockMatch_first)
    with a show ?thesis unfolding first_fenced_block_def has_fenced_block_def by blast
  qed
qed

lemma not_space_backtick: "\<not> is_space backtick"
  by (simp add: is_space_def backtick_def)

lemma has_fenced_block_trim: "has_fenced_block (trim s) \<longleftrightarrow> has_fenced_block s"
proof
  assume "has_fenced_block (trim s)"
  then obtain p t b q where a: "fenced_block (trim s) p t b q" unfolding has_fenced_block_def by blast
  from a have ts: "trim s = p @ fence @ t @ nl # b @ fence @ q" and lt: "list_all lang_char t"
    by (simp_all add: fenced_block_def)
  obtain l r where lr: "s = l @ trim s @ r" using trim_decomp by blast
  have "s = (l @ p) @ fence @ t @ nl # b @ fence @ (q @ r)"
    using lr unfolding ts by simp
  with lt have "fenced_block s (l @ p) t b (q @ r)" unfolding fenced_block_def by blast
  then show "has_fenced_block s" unfolding has_fenced_block_def by blast
next
  assume "has_fenced_block s"
  then obtain p t b q where a: "fenced_block s p t b q" unfolding has_fenced_block_def by blast
  let ?m = "fence @ t @ nl # b @ fence"
  have s: "s = p @ ?m @ q" using a by (simp add: fenced_block_def)
  have "?m \<noteq> []" by (simp add: fence_def)
  moreover have "\<not> is_space (hd ?m)" by (simp add: fence_def not_space_backtick)
  moreover have "\<not> is_space (last ?m)" by (simp add: fence_def not_space_backtick)
  ultimately have "\<exists>l' r'. trim s = l' @ ?m @ r'" by (rule trim_keeps [OF s])
  then obtain l' r' where "trim s = l' @ fence @ t @ nl # b @ fence @ r'" by auto
  moreover from a have "list_all lang_char t" by (simp add: fenced_block_def)
  ultimately have "fenced_block (trim s) l' t b r'" unfolding fenced_block_def by blast
  then show "has_fenced_block (trim s)" unfolding has_fenced_block_def by blast
qed

lemma colon_not_space: "is_colon k \<Longrightarrow> \<not> is_space k"
  by (auto simp: is_colon_def is_space_def)

lemma choice_not_space: "is_choice c \<Longrightarrow> \<not> is_space c"
  by (auto simp: is_choice_def is_space_def)

lemma choice_not_colon: "is_choice c \<Longrightarrow> \<not> is_colon c"
  by (auto simp: is_choice_def is_colon_def)

lemma toUpperCase_choice:
  "is_choice c \<Longrightarrow> toUpperCase c = 0x41 \<or> toUpperCase c = 0x42 \<or> toUpperCase c = 0x43 \<or> toUpperCase c = 0x44"
  by (auto simp: is_choice_def toUpperCase_def)

lemma skip_colon_eq:
  assumes "colon_ok colon" "list_all is_space ws" "is_choice c"
  shows "skip_colon (colon @ ws @ c # post) = ws @ c # post"
proof (cases "colon = []")
  case True
  show ?thesis
  proof (cases ws)
    case Nil
    with True assms(3) show ?thesis by (simp add: skip_colon_def choice_not_colon)
  next
    case (Cons w ws')
    with assms(2) have "\<not> is_colon w" using colon_not_space by auto
    with True Cons show ?thesis by (simp add: skip_colon_def)
  qed
next
  case False
  with assms(1) obtain k where "colon = [k]" "is_colon k" by (auto simp: colon_ok_def)
  then show ?thesis by (simp add: skip_colon_def)
qed

lemma letter_tail_complete:
  assumes "colon_ok colon" "list_all is_space ws" "is_choice c"
  shows "letter_tail (colon @ ws @ c # post) = Some c"
proof -
  have "\<And>x. x \<in> set ws \<Longrightarrow> is_space x" using assms(2) by (simp add: list_all_iff)
  then have "dropWhile is_space (ws @ c # post) = c # post"
    using assms(3) by (simp add: dropWhile_append2 choice_not_space)
  then show ?thesis
    by (simp add: letter_tail_def skip_colon_eq [OF assms] assms(3))
qed

lemma letter_tail_sound:
  assumes "letter_tail r = Some c"
  shows "\<exists>colon ws post. r = colon @ ws @ c # post \<and> colon_ok colon \<and> list_all is_space ws \<and> is_choice c"
proof -
  from assms obtain post where d: "dropWhile is_space (skip_colon r) = c # post" and c: "is_choice c"
    by (auto simp: letter_tail_def split: list.splits if_splits)
  let ?ws = "takeWhile is_space (skip_colon r)"
  have "skip_colon r = ?ws @ dropWhile is_space (skip_colon r)" by simp
  with d have sk: "skip_colon r = ?ws @ c # post" by simp
  have ws: "list_all is_space ?ws" unfolding list_all_iff by (auto dest: set_takeWhileD)
  show ?thesis
  proof (cases r)
    case Nil
    with sk show ?thesis by (simp add: skip_colon_def)
  next
    case (Cons k t)
    show ?thesis
    proof (cases "is_colon k")
      case True
      with Cons have "skip_colon r = t" by (simp add: skip_colon_def)
      with sk Cons have "r = [k] @ ?ws @ c # post" by simp
      moreover have "colon_ok [k]" using True by (simp add: colon_ok_def)
      ultimately show ?thesis using ws c by blast
    next
      case False
      with Cons have "skip_colon r = r" by (simp add: skip_colon_def)
      with sk have "r = [] @ ?ws @ c # post" by simp
      moreover have "colon_ok []" by (simp add: colon_ok_def)
      ultimately show ?thesis using ws c by blast
    qed
  qed
qed

lemma labelled_letter_alt:
  "labelled_letter s pre label c \<longleftrightarrow>
     (label = label_final \<or> label = label_answer) \<and> (\<exists>r. s = pre @ label @ r \<and> letter_tail r = Some c)"
proof
  assume "labelled_letter s pre label c"
  then obtain colon ws post where l: "label = label_final \<or> label = label_answer"
    and s: "s = pre @ label @ colon @ ws @ c # post" and k: "colon_ok colon"
    and w: "list_all is_space ws" and c: "is_choice c"
    unfolding labelled_letter_def by blast
  from letter_tail_complete [OF k w c] have "letter_tail (colon @ ws @ c # post) = Some c" .
  with l s show "(label = label_final \<or> label = label_answer) \<and> (\<exists>r. s = pre @ label @ r \<and> letter_tail r = Some c)"
    by blast
next
  assume "(label = label_final \<or> label = label_answer) \<and> (\<exists>r. s = pre @ label @ r \<and> letter_tail r = Some c)"
  then obtain r where l: "label = label_final \<or> label = label_answer"
    and s: "s = pre @ label @ r" and t: "letter_tail r = Some c" by blast
  from letter_tail_sound [OF t] obtain colon ws post where
    "r = colon @ ws @ c # post" "colon_ok colon" "list_all is_space ws" "is_choice c" by blast
  with l s show "labelled_letter s pre label c"
    unfolding labelled_letter_def by blast
qed

lemma after_label_iff: "after_label l s = Some c \<longleftrightarrow> (\<exists>r. s = l @ r \<and> letter_tail r = Some c)"
proof (cases "strip_prefix l s")
  case None
  then have "after_label l s = None" by (simp add: after_label_def)
  moreover from None have "\<forall>r. s \<noteq> l @ r" by (simp add: strip_prefix_None_iff)
  ultimately show ?thesis by simp
next
  case (Some r)
  then have "after_label l s = letter_tail r" by (simp add: after_label_def)
  moreover from Some have "s = l @ r" by (simp add: strip_prefix_iff)
  ultimately show ?thesis by simp
qed

lemma label_answer_not_final: "strip_prefix label_final (label_answer @ r) = None"
  by (simp add: label_final_def label_answer_def)

lemma letter_here_iff: "letter_here s = Some c \<longleftrightarrow> (\<exists>label. labelled_letter s [] label c)"
proof
  assume h: "letter_here s = Some c"
  show "\<exists>label. labelled_letter s [] label c"
  proof (cases "after_label label_final s")
    case None
    with h have "after_label label_answer s = Some c" by (simp add: letter_here_def)
    then have "labelled_letter s [] label_answer c"
      by (simp add: labelled_letter_alt after_label_iff)
    then show ?thesis ..
  next
    case (Some c')
    with h have "after_label label_final s = Some c" by (simp add: letter_here_def)
    then have "labelled_letter s [] label_final c"
      by (simp add: labelled_letter_alt after_label_iff)
    then show ?thesis ..
  qed
next
  assume "\<exists>label. labelled_letter s [] label c"
  then obtain label where "labelled_letter s [] label c" ..
  then obtain r where l: "label = label_final \<or> label = label_answer"
    and s: "s = label @ r" and t: "letter_tail r = Some c"
    by (auto simp: labelled_letter_alt)
  from l show "letter_here s = Some c"
  proof
    assume "label = label_final"
    with s t have "after_label label_final s = Some c" by (auto simp: after_label_iff)
    then show ?thesis by (simp add: letter_here_def)
  next
    assume a: "label = label_answer"
    with s t have "after_label label_answer s = Some c" by (auto simp: after_label_iff)
    moreover have "after_label label_final s = None"
      using s a by (simp add: after_label_def label_answer_not_final)
    ultimately show ?thesis by (simp add: letter_here_def)
  qed
qed

lemma labelled_letter_shift:
  "labelled_letter (pre @ suf) pre label c \<longleftrightarrow> labelled_letter suf [] label c"
  by (simp add: labelled_letter_alt)

lemma labelled_letter_prefix: "labelled_letter s pre label c \<Longrightarrow> \<exists>suf. s = pre @ suf"
  by (auto simp: labelled_letter_alt)

lemma letterMatch_None_iff: "letterMatch s = None \<longleftrightarrow> \<not> has_labelled_letter s"
proof
  assume n: "letterMatch s = None"
  show "\<not> has_labelled_letter s"
  proof
    assume "has_labelled_letter s"
    then obtain pre label c where a: "labelled_letter s pre label c"
      unfolding has_labelled_letter_def by blast
    then obtain suf where s: "s = pre @ suf" by (auto dest: labelled_letter_prefix)
    with a have "labelled_letter suf [] label c" by (simp add: labelled_letter_shift)
    then have "letter_here suf = Some c" unfolding letter_here_iff ..
    moreover from n s have "letter_here suf = None"
      unfolding letterMatch_def leftmost_None_iff by blast
    ultimately show False by simp
  qed
next
  assume a: "\<not> has_labelled_letter s"
  show "letterMatch s = None"
  proof (cases "letterMatch s")
    case None
    then show ?thesis .
  next
    case (Some c)
    then obtain pre suf where s: "s = pre @ suf" and h: "letter_here suf = Some c"
      using leftmost_Some [of letter_here s c] unfolding letterMatch_def by blast
    from h obtain label where "labelled_letter suf [] label c" unfolding letter_here_iff ..
    then have "labelled_letter s pre label c" by (simp add: s labelled_letter_shift)
    with a show ?thesis unfolding has_labelled_letter_def by blast
  qed
qed

lemma letterMatch_first:
  assumes "letterMatch s = Some c"
  shows "first_labelled_letter s c"
proof -
  from assms obtain pre suf where s: "s = pre @ suf" and h: "letter_here suf = Some c"
    and mn: "\<forall>pre' suf'. s = pre' @ suf' \<and> length pre' < length pre \<longrightarrow> letter_here suf' = None"
    using leftmost_Some [of letter_here s c] unfolding letterMatch_def by blast
  from h obtain label where "labelled_letter suf [] label c" unfolding letter_here_iff ..
  then have fb: "labelled_letter s pre label c" by (simp add: s labelled_letter_shift)
  have "\<forall>pre' label' c'. labelled_letter s pre' label' c' \<longrightarrow> length pre \<le> length pre'"
  proof (intro allI impI)
    fix pre' label' c' assume a: "labelled_letter s pre' label' c'"
    then obtain suf' where s': "s = pre' @ suf'" by (auto dest: labelled_letter_prefix)
    with a have "labelled_letter suf' [] label' c'" by (simp add: labelled_letter_shift)
    then have c: "letter_here suf' = Some c'" unfolding letter_here_iff ..
    show "length pre \<le> length pre'"
    proof (rule ccontr)
      assume "\<not> length pre \<le> length pre'"
      then have "length pre' < length pre" by simp
      with mn s' have "letter_here suf' = None" by blast
      with c show False by simp
    qed
  qed
  with fb show ?thesis unfolding first_labelled_letter_def by blast
qed

lemma first_labelled_letter_match:
  assumes "first_labelled_letter s c"
  shows "letterMatch s = Some c"
proof -
  from assms obtain pre label where a: "labelled_letter s pre label c"
    and mn: "\<forall>pre' label' c'. labelled_letter s pre' label' c' \<longrightarrow> length pre \<le> length pre'"
    unfolding first_labelled_letter_def by blast
  from a have "has_labelled_letter s" unfolding has_labelled_letter_def by blast
  then obtain c0 where m: "letterMatch s = Some c0" using letterMatch_None_iff [of s] by auto
  from letterMatch_first [OF m] obtain pre0 label0 where a0: "labelled_letter s pre0 label0 c0"
    and mn0: "\<forall>pre' label' c'. labelled_letter s pre' label' c' \<longrightarrow> length pre0 \<le> length pre'"
    unfolding first_labelled_letter_def by blast
  from mn a0 have "length pre \<le> length pre0" by blast
  moreover from mn0 a have "length pre0 \<le> length pre" by blast
  ultimately have len: "length pre = length pre0" by simp
  from a obtain suf where s: "s = pre @ suf" by (auto dest: labelled_letter_prefix)
  from a0 obtain suf0 where s0: "s = pre0 @ suf0" by (auto dest: labelled_letter_prefix)
  have "pre @ suf = pre0 @ suf0" using s s0 by simp
  with len have eq: "pre = pre0 \<and> suf = suf0" by simp
  from a s have "labelled_letter suf [] label c" by (simp add: labelled_letter_shift)
  then have "letter_here suf = Some c" unfolding letter_here_iff ..
  moreover from a0 s0 have "labelled_letter suf0 [] label0 c0" by (simp add: labelled_letter_shift)
  then have "letter_here suf0 = Some c0" unfolding letter_here_iff ..
  ultimately have "c = c0" using eq by simp
  with m show ?thesis by simp
qed

lemma is_solo_iff: "is_solo l \<longleftrightarrow> (\<exists>c. l = [c] \<and> is_choice c)"
  by (auto simp: is_solo_def split: list.splits)

lemma soloLine_None_iff: "soloLine s = None \<longleftrightarrow> \<not> has_solo_line s"
  by (auto simp: soloLine_def has_solo_line_def find_None_iff is_solo_iff)

lemma first_solo_line_find:
  assumes "first_solo_line s c"
  shows "soloLine s = Some [c]"
proof -
  let ?xs = "map trim (split_lines s)"
  from assms obtain i where i: "i < length (split_lines s)"
    and t: "trim (split_lines s ! i) = [c]" and c: "is_choice c"
    and mn: "\<forall>j<i. \<not> (\<exists>d. trim (split_lines s ! j) = [d] \<and> is_choice d)"
    unfolding first_solo_line_def by blast
  have "i < length ?xs" using i by simp
  moreover have "is_solo (?xs ! i)" using i t c by (simp add: is_solo_iff)
  moreover have "[c] = ?xs ! i" using i t by simp
  moreover have "\<forall>j<i. \<not> is_solo (?xs ! j)"
  proof (intro allI impI)
    fix j assume "j < i"
    with mn i show "\<not> is_solo (?xs ! j)" by (simp add: is_solo_iff)
  qed
  ultimately have "\<exists>i<length ?xs. is_solo (?xs ! i) \<and> [c] = ?xs ! i \<and> (\<forall>j<i. \<not> is_solo (?xs ! j))"
    by blast
  then show ?thesis unfolding soloLine_def find_Some_iff .
qed

lemma chosen_letter_labelled:
  "first_labelled_letter t c \<Longrightarrow> chosen_letter t = Some [toUpperCase c]"
  by (simp add: chosen_letter_def first_labelled_letter_match)

lemma chosen_letter_solo:
  "\<not> has_labelled_letter t \<Longrightarrow> first_solo_line t c \<Longrightarrow> chosen_letter t = Some [toUpperCase c]"
  by (simp add: chosen_letter_def letterMatch_None_iff [symmetric] first_solo_line_find)

lemma chosen_letter_none:
  "\<not> has_labelled_letter t \<Longrightarrow> \<not> has_solo_line t \<Longrightarrow> chosen_letter t = None"
  by (simp add: chosen_letter_def letterMatch_None_iff [symmetric] soloLine_None_iff [symmetric])

section \<open>The classifier\<close>

lemma trim_Nil_list_all: "trim s = [] \<longleftrightarrow> list_all is_space s"
  by (simp add: trim_Nil_iff list_all_iff)

lemma fenced_not_blank: "has_fenced_block s \<Longrightarrow> s \<noteq> []"
  by (auto simp: has_fenced_block_def fenced_block_def)

lemma formatDirectResponse_code:
  assumes "codeBlockMatch (trim fullText) = Some (tag, body)"
  shows "\<exists>pinfo. formatDirectResponse fullText language =
           Inr (\<lparr>answer_type = Code, content = trim body, code = Some (trim body),
                 final_answer = None, thoughts = Some code_thoughts, time_complexity = None,
                 space_complexity = None, key_takeaways = None\<rparr>, pinfo)"
proof -
  from assms have "has_fenced_block (trim fullText)"
    using codeBlockMatch_None_iff [of "trim fullText"] by auto
  then have "trim fullText \<noteq> []" by (rule fenced_not_blank)
  with assms show ?thesis by (simp add: formatDirectResponse_def Let_def)
qed

lemma formatDirectResponse_analysis:
  assumes "trim fullText \<noteq> []" "\<not> has_fenced_block (trim fullText)"
  shows "\<exists>pinfo. formatDirectResponse fullText language =
           Inr (\<lparr>answer_type = Analysis, content = trim fullText, code = None,
                 final_answer = chosen_letter (trim fullText), thoughts = None,
                 time_complexity = None, space_complexity = None,
                 key_takeaways = (case chosen_letter (trim fullText) of
                                    Some l \<Rightarrow> Some [txt_correct_option @ l] | None \<Rightarrow> None)\<rparr>, pinfo)"
proof -
  from assms(2) have "codeBlockMatch (trim fullText) = None" by (simp add: codeBlockMatch_None_iff)
  with assms(1) show ?thesis by (simp add: formatDirectResponse_def Let_def)
qed

lemma formatDirectResponse_blank:
  "list_all is_space fullText \<Longrightarrow> formatDirectResponse fullText language = Inl (Error msg_no_content)"
  by (simp add: formatDirectResponse_def trim_Nil_list_all)

lemma labelled_not_blank: "has_labelled_letter s \<Longrightarrow> s \<noteq> []"
  by (auto simp: has_labelled_letter_def labelled_letter_def)

lemma solo_not_blank:
  assumes "has_solo_line s"
  shows "s \<noteq> []"
proof
  assume "s = []"
  then have "split_lines s = [ [] ]" by (simp add: split_lines_def)
  with assms show False by (simp add: has_solo_line_def trim_def)
qed

lemma first_solo_has_solo: "first_solo_line s c \<Longrightarrow> has_solo_line s"
  unfolding first_solo_line_def has_solo_line_def by (metis nth_mem)

lemma first_labelled_has_labelled: "first_labelled_letter s c \<Longrightarrow> has_labelled_letter s"
  unfolding first_labelled_letter_def has_labelled_letter_def by blast

lemma first_labelled_choice: "first_labelled_letter s c \<Longrightarrow> is_choice c"
  unfolding first_labelled_letter_def labelled_letter_def by blast

lemma first_solo_choice: "first_solo_line s c \<Longrightarrow> is_choice c"
  unfolding first_solo_line_def by blast

text \<open>
  C1. A text that contains a fenced code block (as the pattern has it: an opening fence, a
  tag of class characters, a newline, a body, a closing fence) is classified as code,
  whatever else it contains, a multiple-choice letter included: the answer type is code, and
  the code and the content are the trimmed body of the leftmost fenced block of the trimmed
  text, taken up to the first closing fence. No letter and no takeaway is set. The body may
  be of any length; a body of at least one character is a case of it.
\<close>

theorem code_fence_priority:
  assumes "fenced_block fullText pre tag body post"
  shows "\<exists>tag' body' pinfo.
           first_fenced_block (trim fullText) tag' body' \<and>
           formatDirectResponse fullText language =
             Inr (\<lparr>answer_type = Code, content = trim body', code = Some (trim body'),
                   final_answer = None, thoughts = Some code_thoughts, time_complexity = None,
                   space_complexity = None, key_takeaways = None\<rparr>, pinfo)"
proof -
  from assms have "has_fenced_block fullText" unfolding has_fenced_block_def by blast
  then have "has_fenced_block (trim fullText)" by (simp add: has_fenced_block_trim)
  then obtain m where "codeBlockMatch (trim fullText) = Some m"
    using codeBlockMatch_None_iff [of "trim fullText"] by auto
  then obtain tag' body' where m: "codeBlockMatch (trim fullText) = Some (tag', body')"
    by (cases m) auto
  from codeBlockMatch_first [OF m] formatDirectResponse_code [OF m, of language]
  show ?thesis by blast
qed

text \<open>
  The text of \<open>ex_both\<close> has a labelled letter B and then a fenced block: the letter pattern
  matches it, and it is classified as code all the same.
\<close>

theorem code_fence_priority_witness:
  "fenced_block ex_both (label_final @ [0xFF1A, 0x42, nl]) (ascii ''py'') (ascii ''x = 1'' @ [nl]) [] \<and>
   letterMatch (trim ex_both) = Some 0x42 \<and>
   (\<exists>tag' body' pinfo.
      first_fenced_block (trim ex_both) tag' body' \<and>
      formatDirectResponse ex_both (ascii ''python'') =
        Inr (\<lparr>answer_type = Code, content = trim body', code = Some (trim body'),
              final_answer = None, thoughts = Some code_thoughts, time_complexity = None,
              space_complexity = None, key_takeaways = None\<rparr>, pinfo)) \<and>
   map_sum message (code \<circ> fst) (formatDirectResponse ex_both (ascii ''python'')) =
     Inr (Some (ascii ''x = 1''))"
proof -
  have h: "fenced_block ex_both (label_final @ [0xFF1A, 0x42, nl]) (ascii ''py'')
             (ascii ''x = 1'' @ [nl]) []"
    by (simp add: fenced_block_def ex_both_def ascii_def lang_char_def)
  have l: "letterMatch (trim ex_both) = Some 0x42" by code_simp
  have c: "map_sum message (code \<circ> fst) (formatDirectResponse ex_both (ascii ''python'')) =
             Inr (Some (ascii ''x = 1''))" by code_simp
  from h l c code_fence_priority [OF h, of "ascii ''python''"] show ?thesis by blast
qed

text \<open>
  C2. A text that has a character other than white space ("non-empty prose"), and whose
  trimmed form has no fenced block, no labelled letter and no line that is one letter A to D,
  is classified without an error: the answer type is analysis, the content is the trimmed
  text, and the letter, the code, the thoughts, the complexities and the takeaways are absent.
\<close>

theorem prose_fallback:
  assumes "\<not> list_all is_space fullText"
      and "\<not> has_fenced_block (trim fullText)"
      and "\<not> has_labelled_letter (trim fullText)"
      and "\<not> has_solo_line (trim fullText)"
  shows "\<exists>pinfo. formatDirectResponse fullText language =
           Inr (\<lparr>answer_type = Analysis, content = trim fullText, code = None,
                 final_answer = None, thoughts = None, time_complexity = None,
                 space_complexity = None, key_takeaways = None\<rparr>, pinfo)"
proof -
  from assms(1) have "trim fullText \<noteq> []" by (simp add: trim_Nil_list_all)
  from formatDirectResponse_analysis [OF this assms(2), of language]
    chosen_letter_none [OF assms(3) assms(4)]
  show ?thesis by simp
qed

theorem prose_fallback_witness:
  "\<not> list_all is_space ex_prose \<and> \<not> has_fenced_block (trim ex_prose) \<and>
   \<not> has_labelled_letter (trim ex_prose) \<and> \<not> has_solo_line (trim ex_prose) \<and>
   (\<exists>pinfo. formatDirectResponse ex_prose (ascii ''python'') =
      Inr (\<lparr>answer_type = Analysis, content = ascii ''It depends on the context.'', code = None,
            final_answer = None, thoughts = None, time_complexity = None,
            space_complexity = None, key_takeaways = None\<rparr>, pinfo))"
proof -
  have t: "trim ex_prose = ascii ''It depends on the context.''" by code_simp
  have a: "\<not> list_all is_space ex_prose" by code_simp
  have "codeBlockMatch (trim ex_prose) = None" by code_simp
  then have b: "\<not> has_fenced_block (trim ex_prose)" by (simp add: codeBlockMatch_None_iff)
  have "letterMatch (trim ex_prose) = None" by code_simp
  then have c: "\<not> has_labelled_letter (trim ex_prose)" by (simp add: letterMatch_None_iff)
  have "soloLine (trim ex_prose) = None" by code_simp
  then have d: "\<not> has_solo_line (trim ex_prose)" by (simp add: soloLine_None_iff)
  from prose_fallback [OF a b c d, of "ascii ''python''"] a b c d show ?thesis
    unfolding t by blast
qed

text \<open>
  C3, as amended. For a text whose trimmed form has no fenced block, the labelled pattern is
  searched first: one of the two Chinese labels (U+6700 U+7EC8 U+7B54 U+6848, "final answer",
  or its last two code units, "answer"), at most one ASCII or fullwidth colon, white space,
  and a letter among \<^verbatim>\<open>ABCDabcd\<close>. A line that is, once trimmed, one such letter is
  searched only when there is no labelled letter. If \<open>c\<close> is the letter of the leftmost
  labelled pattern, or there is none and \<open>c\<close> is the letter of the first line that is one
  letter, the answer type is analysis, the chosen letter is \<open>c\<close> in upper case, one of A to
  D, and the takeaways are the one entry naming it. The witness below is the reply of the
  end-to-end scenario, and a reply with a solo line.
\<close>

theorem chosen_letter_answer:
  assumes "\<not> has_fenced_block (trim fullText)"
      and "first_labelled_letter (trim fullText) c \<or>
           (\<not> has_labelled_letter (trim fullText) \<and> first_solo_line (trim fullText) c)"
  shows "(\<exists>pinfo. formatDirectResponse fullText language =
            Inr (\<lparr>answer_type = Analysis, content = trim fullText, code = None,
                  final_answer = Some [toUpperCase c], thoughts = None, time_complexity = None,
                  space_complexity = None,
                  key_takeaways = Some [txt_correct_option @ [toUpperCase c] ]\<rparr>, pinfo)) \<and>
         (toUpperCase c = 0x41 \<or> toUpperCase c = 0x42 \<or> toUpperCase c = 0x43 \<or>
          toUpperCase c = 0x44)"
proof -
  from assms(2) have ne: "trim fullText \<noteq> []"
    using labelled_not_blank first_labelled_has_labelled solo_not_blank first_solo_has_solo
    by blast
  from assms(2) have ch: "chosen_letter (trim fullText) = Some [toUpperCase c]"
    using chosen_letter_labelled chosen_letter_solo by blast
  from assms(2) have "is_choice c" using first_labelled_choice first_solo_choice by blast
  then have up: "toUpperCase c = 0x41 \<or> toUpperCase c = 0x42 \<or> toUpperCase c = 0x43 \<or>
          toUpperCase c = 0x44" by (rule toUpperCase_choice)
  from formatDirectResponse_analysis [OF ne assms(1), of language] ch up
  show ?thesis by simp
qed

theorem chosen_letter_answer_witness:
  "\<not> has_fenced_block (trim ex_choice) \<and> first_labelled_letter (trim ex_choice) 0x43 \<and>
   (\<exists>pinfo. formatDirectResponse ex_choice (ascii ''python'') =
      Inr (\<lparr>answer_type = Analysis, content = ex_choice, code = None,
            final_answer = Some (ascii ''C''), thoughts = None, time_complexity = None,
            space_complexity = None,
            key_takeaways = Some [ [0x6B63, 0x786E, 0x9009, 0x9879, 0xFF1A, 0x43] ]\<rparr>, pinfo)) \<and>
   \<not> has_fenced_block (trim ex_solo) \<and> \<not> has_labelled_letter (trim ex_solo) \<and>
   first_solo_line (trim ex_solo) 0x62 \<and>
   (\<exists>pinfo. formatDirectResponse ex_solo (ascii ''python'') =
      Inr (\<lparr>answer_type = Analysis, content = ex_solo, code = None,
            final_answer = Some (ascii ''B''), thoughts = None, time_complexity = None,
            space_complexity = None,
            key_takeaways = Some [ [0x6B63, 0x786E, 0x9009, 0x9879, 0xFF1A, 0x42] ]\<rparr>, pinfo))"
proof -
  have t: "trim ex_choice = ex_choice" by code_simp
  have "codeBlockMatch (trim ex_choice) = None" by code_simp
  then have a: "\<not> has_fenced_block (trim ex_choice)" by (simp add: codeBlockMatch_None_iff)
  have "letterMatch (trim ex_choice) = Some 0x43" by code_simp
  then have b: "first_labelled_letter (trim ex_choice) 0x43" by (rule letterMatch_first)
  have u: "toUpperCase 0x43 = 0x43" "txt_correct_option @ [0x43] = [0x6B63, 0x786E, 0x9009, 0x9879, 0xFF1A, 0x43]"
    "ascii ''C'' = [0x43]"
    by (simp_all add: toUpperCase_def txt_correct_option_def ascii_def)
  have r1: "\<exists>pinfo. formatDirectResponse ex_choice (ascii ''python'') =
      Inr (\<lparr>answer_type = Analysis, content = ex_choice, code = None,
            final_answer = Some (ascii ''C''), thoughts = None, time_complexity = None,
            space_complexity = None,
            key_takeaways = Some [ [0x6B63, 0x786E, 0x9009, 0x9879, 0xFF1A, 0x43] ]\<rparr>, pinfo)"
    using chosen_letter_answer [where fullText = ex_choice and c = "0x43" and language = "ascii ''python''"] a b
    unfolding t u by blast
  have t': "trim ex_solo = ex_solo" by code_simp
  have "codeBlockMatch (trim ex_solo) = None" by code_simp
  then have a': "\<not> has_fenced_block (trim ex_solo)" by (simp add: codeBlockMatch_None_iff)
  have "letterMatch (trim ex_solo) = None" by code_simp
  then have c': "\<not> has_labelled_letter (trim ex_solo)" by (simp add: letterMatch_None_iff)
  have sl: "split_lines ex_solo =
              [ [0x49, 0x20, 0x74, 0x68, 0x69, 0x6E, 0x6B],
               [0x20, 0x20, 0x62, 0x20],
               [0x69, 0x73, 0x20, 0x72, 0x69, 0x67, 0x68, 0x74] ]"
    by code_simp
  have tr: "trim [0x49, 0x20, 0x74, 0x68, 0x69, 0x6E, 0x6B] =
              [0x49, 0x20, 0x74, 0x68, 0x69, 0x6E, 0x6B]"
    "trim [0x20, 0x20, 0x62, 0x20] = [0x62]"
    by code_simp+
  have "first_solo_line ex_solo 0x62"
    unfolding first_solo_line_def sl
    by (rule exI [of _ 1]) (simp add: tr less_Suc_eq is_choice_def)
  then have b': "first_solo_line (trim ex_solo) 0x62" by (simp add: t')
  have u': "toUpperCase 0x62 = 0x42" "txt_correct_option @ [0x42] = [0x6B63, 0x786E, 0x9009, 0x9879, 0xFF1A, 0x42]"
    "ascii ''B'' = [0x42]"
    by (simp_all add: toUpperCase_def txt_correct_option_def ascii_def)
  have r2: "\<exists>pinfo. formatDirectResponse ex_solo (ascii ''python'') =
      Inr (\<lparr>answer_type = Analysis, content = ex_solo, code = None,
            final_answer = Some (ascii ''B''), thoughts = None, time_complexity = None,
            space_complexity = None,
            key_takeaways = Some [ [0x6B63, 0x786E, 0x9009, 0x9879, 0xFF1A, 0x42] ]\<rparr>, pinfo)"
    using chosen_letter_answer [where fullText = ex_solo and c = "0x62" and language = "ascii ''python''"] a' c' b'
    unfolding t' u' by blast
  from a b r1 a' c' b' r2 show ?thesis by blast
qed

text \<open>
  C3 as stated fails: the label is recognised in Chinese only. A reply whose first line is
  "Final answer: C" has no fenced block, and no letter is chosen from it.
\<close>

theorem english_label_counterexample:
  "codeBlockMatch (trim ex_english) = None \<and>
   map_sum message fst (formatDirectResponse ex_english (ascii ''python'')) =
     Inr \<lparr>answer_type = Analysis, content = ex_english, code = None, final_answer = None,
          thoughts = None, time_complexity = None, space_complexity = None,
          key_takeaways = None\<rparr>"
  by code_simp

section \<open>The provider clients\<close>

lemma live_initialize:
  "apiProvider cfg \<noteq> OtherProvider \<Longrightarrow>
     live (initializeAIClient (Inr cfg) s) = (if apiKey cfg = [] then [] else [apiProvider cfg])"
  by (cases "apiProvider cfg")
     (simp_all add: initializeAIClient_def live_def clear_clients_def Let_def)

lemma live_initialize_other:
  "apiProvider cfg = OtherProvider \<Longrightarrow> initializeAIClient (Inr cfg) s = s"
  by (simp add: initializeAIClient_def)

lemma live_initialize_throw: "live (initializeAIClient (Inl e) s) = []"
  by (simp add: initializeAIClient_def live_def)

lemma initialize_keeps_one:
  assumes "length (live s) \<le> 1"
  shows "length (live (initializeAIClient l s)) \<le> 1"
proof (cases l)
  case (Inl e)
  then show ?thesis by (simp add: live_initialize_throw)
next
  case (Inr cfg)
  show ?thesis
  proof (cases "apiProvider cfg = OtherProvider")
    case True
    with Inr assms show ?thesis by (simp add: live_initialize_other)
  next
    case False
    with Inr show ?thesis by (simp add: live_initialize)
  qed
qed

lemma initialize_run_keeps_one:
  "length (live s) \<le> 1 \<Longrightarrow> length (live (foldl (\<lambda>s l. initializeAIClient l s) s loads)) \<le> 1"
proof (induction loads arbitrary: s)
  case Nil
  then show ?case by simp
next
  case (Cons l loads)
  from Cons.prems have "length (live (initializeAIClient l s)) \<le> 1" by (rule initialize_keeps_one)
  then show ?case using Cons.IH by simp
qed

lemma no_clients_live: "no_clients s \<Longrightarrow> live s = []"
  by (simp add: no_clients_def live_def)

text \<open>
  C9. Initializing with a configuration that selects one of the three providers leaves at
  most that provider with a credential: the list of providers that hold one is the selected
  provider when the configuration has a key, and is empty when it has none; when loading the
  configuration throws, no provider holds one. Hence, from a helper that holds no credential,
  after any sequence of initializations at most one provider holds a credential.
\<close>

theorem one_live_client:
  "(apiProvider cfg \<noteq> OtherProvider \<longrightarrow>
      live (initializeAIClient (Inr cfg) s) = (if apiKey cfg = [] then [] else [apiProvider cfg])) \<and>
   live (initializeAIClient (Inl e) s) = [] \<and>
   (no_clients s0 \<longrightarrow> length (live (foldl (\<lambda>s l. initializeAIClient l s) s0 loads)) \<le> 1)"
proof -
  have "no_clients s0 \<longrightarrow> length (live (foldl (\<lambda>s l. initializeAIClient l s) s0 loads)) \<le> 1"
  proof
    assume "no_clients s0"
    then have "length (live s0) \<le> 1" by (simp add: no_clients_live)
    then show "length (live (foldl (\<lambda>s l. initializeAIClient l s) s0 loads)) \<le> 1"
      by (rule initialize_run_keeps_one)
  qed
  then show ?thesis by (simp add: live_initialize live_initialize_throw)
qed

text \<open>Switching a helper that holds a Gemini key to OpenAI, and a run of three initializations.\<close>

theorem one_live_client_witness:
  "live helper_gemini = [Gemini] \<and>
   apiProvider (cfg_of OpenAI (ascii ''sk-1'')) \<noteq> OtherProvider \<and>
   live (initializeAIClient (Inr (cfg_of OpenAI (ascii ''sk-1''))) helper_gemini) = [OpenAI] \<and>
   live (initializeAIClient (Inl (Error [])) helper_gemini) = [] \<and>
   no_clients helper0 \<and>
   length (live (foldl (\<lambda>s l. initializeAIClient l s) helper0
                  [Inr (cfg_of Gemini (ascii ''key-1'')), Inr (cfg_of Anthropic (ascii ''key-2'')),
                   Inr (cfg_of OtherProvider (ascii ''key-3''))])) \<le> 1"
proof -
  have a: "live helper_gemini = [Gemini]"
    by (simp add: helper_gemini_def helper0_def cfg_of_def initializeAIClient_def live_def ascii_def)
  have b: "apiProvider (cfg_of OpenAI (ascii ''sk-1'')) \<noteq> OtherProvider" by (simp add: cfg_of_def)
  have k: "apiKey (cfg_of OpenAI (ascii ''sk-1'')) \<noteq> []" by (simp add: cfg_of_def ascii_def)
  have n: "no_clients helper0" by (simp add: no_clients_def helper0_def)
  from one_live_client [of "cfg_of OpenAI (ascii ''sk-1'')" helper_gemini "Error []" helper0
      "[Inr (cfg_of Gemini (ascii ''key-1'')), Inr (cfg_of Anthropic (ascii ''key-2'')),
        Inr (cfg_of OtherProvider (ascii ''key-3''))]"] a b k n
  show ?thesis by (simp add: cfg_of_def)
qed

section \<open>The solve pipeline\<close>

lemma helper_reply_extracted:
  "extracted_text cfg net = Some t \<Longrightarrow>
     helper_reply cfg wl net s = classify_and_publish (apiProvider cfg) (getLanguage cfg wl) t s"
  by (cases "apiProvider cfg")
     (auto simp: extracted_text_def helper_reply_def Let_def split: outcome.splits sum.splits)

lemma no_token_in_no_content: "\<not> includes_str (map toLowerCase msg_no_content) (ascii ''token'')"
  by code_simp

lemma no_content_not_key_error: "\<not> is_key_error msg_no_content"
  by code_simp

lemma solve_catch_no_content: "solve_catch provider (Error msg_no_content) = Failure msg_no_content"
proof -
  have "msg_no_content \<noteq> []" by (simp add: msg_no_content_def)
  then show ?thesis
    by (simp add: solve_catch_def Error_def or_else_def opt_string_def no_token_in_no_content)
qed

lemma classify_blank:
  "list_all is_space fullText \<Longrightarrow>
     classify_and_publish provider language fullText s = (Failure msg_no_content, s)"
  by (simp add: classify_and_publish_def formatDirectResponse_blank solve_catch_no_content)

lemma solve_result_failure:
  "\<not> is_key_error m \<Longrightarrow>
     solve_result (Failure m) s =
       (send (INITIAL_SOLUTION_ERROR (ErrorMessage m)) s)
         \<lparr>view := Queue, currentProcessingAbortController := None\<rparr>"
  by (simp add: solve_result_def)

text \<open>
  C10. When the text of a reply is empty or only white space, \<^verbatim>\<open>formatDirectResponse\<close> throws
  its error instead of returning an answer; and when that text is what the solve helper
  extracted from the reply of the configured provider, the solve run ends by sending the
  solution-error message with the error's text, sets the view back to the queue, and sends no
  success message.
\<close>

theorem blank_reply_fails:
  assumes "list_all is_space fullText"
  shows "formatDirectResponse fullText language = Inl (Error msg_no_content) \<and>
         (extracted_text cfg net = Some fullText \<longrightarrow>
            solve_end cfg wl net s =
              (send (INITIAL_SOLUTION_ERROR (ErrorMessage msg_no_content)) s)
                \<lparr>view := Queue, currentProcessingAbortController := None\<rparr>)"
proof -
  have "extracted_text cfg net = Some fullText \<longrightarrow>
            solve_end cfg wl net s =
              (send (INITIAL_SOLUTION_ERROR (ErrorMessage msg_no_content)) s)
                \<lparr>view := Queue, currentProcessingAbortController := None\<rparr>"
  proof
    assume "extracted_text cfg net = Some fullText"
    then have "helper_reply cfg wl net s = (Failure msg_no_content, s)"
      by (simp add: helper_reply_extracted classify_blank [OF assms])
    then show "solve_end cfg wl net s =
              (send (INITIAL_SOLUTION_ERROR (ErrorMessage msg_no_content)) s)
                \<lparr>view := Queue, currentProcessingAbortController := None\<rparr>"
      by (simp add: solve_end_def solve_result_failure no_content_not_key_error)
  qed
  with formatDirectResponse_blank [OF assms] show ?thesis by blast
qed


text \<open>A chat completion whose content is the blank text \<open>ex_blank\<close>.\<close>

theorem blank_reply_fails_witness:
  "list_all is_space ex_blank \<and>
   formatDirectResponse ex_blank (ascii ''python'') = Inl (Error msg_no_content) \<and>
   extracted_text (cfg_of OpenAI (ascii ''sk-1'')) (net_openai (Resolved (ContentString ex_blank))) =
     Some ex_blank \<and>
   solve_end (cfg_of OpenAI (ascii ''sk-1'')) None (net_openai (Resolved (ContentString ex_blank)))
       helper0 =
     (send (INITIAL_SOLUTION_ERROR (ErrorMessage msg_no_content)) helper0)
       \<lparr>view := Queue, currentProcessingAbortController := None\<rparr>"
proof -
  have a: "list_all is_space ex_blank" by (simp add: ex_blank_def is_space_def nl_def)
  have b: "extracted_text (cfg_of OpenAI (ascii ''sk-1''))
             (net_openai (Resolved (ContentString ex_blank))) = Some ex_blank"
    by (simp add: extracted_text_def cfg_of_def net_openai_def openai_extract_def)
  from a b blank_reply_fails [OF a, of "ascii ''python''" "cfg_of OpenAI (ascii ''sk-1'')"
      "net_openai (Resolved (ContentString ex_blank))" None helper0]
  show ?thesis by simp
qed

section \<open>Extraction from a generate reply\<close>

lemma trim_has_nonspace:
  assumes "trim t \<noteq> []"
  shows "\<exists>c\<in>set (trim t). \<not> is_space c"
proof -
  let ?r = "dropWhile is_space (rev (dropWhile is_space t))"
  have t: "trim t = rev ?r" by (simp add: trim_def)
  with assms have ne: "?r \<noteq> []" by simp
  then have "\<not> is_space (hd ?r)" by (rule hd_dropWhile)
  moreover have "hd ?r \<in> set (trim t)" using ne unfolding t by simp
  ultimately show ?thesis by blast
qed

lemma join_first_subset: "set x \<subseteq> set (join sep (x # xs))"
  by (cases xs) auto

lemma collect_text_Nil_iff: "collect_text ps = [] \<longleftrightarrow> list_all blank_part ps"
proof (induction ps)
  case Nil
  then show ?case by (simp add: collect_text_def)
next
  case (Cons p ps)
  have "collect_text (p # ps) =
          (case p of None \<Rightarrow> collect_text ps
           | Some t \<Rightarrow> if trim t \<noteq> [] then trim t # collect_text ps else collect_text ps)"
    by (simp add: collect_text_def map_filter_simps split: option.splits)
  with Cons.IH show ?case
    by (auto simp: blank_part_def opt_string_def trim_Nil_list_all split: option.splits)
qed

lemma collect_text_nonspace:
  "x \<in> set (collect_text ps) \<Longrightarrow> \<exists>c\<in>set x. \<not> is_space c"
proof (induction ps)
  case Nil
  then show ?case by (simp add: collect_text_def)
next
  case (Cons p ps)
  have e: "collect_text (p # ps) =
          (case p of None \<Rightarrow> collect_text ps
           | Some t \<Rightarrow> if trim t \<noteq> [] then trim t # collect_text ps else collect_text ps)"
    by (simp add: collect_text_def map_filter_simps split: option.splits)
  show ?case
  proof (cases "x \<in> set (collect_text ps)")
    case True
    then show ?thesis by (rule Cons.IH)
  next
    case False
    with Cons.prems e obtain t where "p = Some t" "trim t \<noteq> []" "x = trim t"
      by (auto split: option.splits if_splits)
    then show ?thesis by (simp add: trim_has_nonspace)
  qed
qed

lemma gemini_text_blank_iff:
  "trim (join [nl] (collect_text ps)) = [] \<longleftrightarrow> list_all blank_part ps"
proof
  assume a: "trim (join [nl] (collect_text ps)) = []"
  show "list_all blank_part ps"
  proof (rule ccontr)
    assume "\<not> list_all blank_part ps"
    then obtain x xs where c: "collect_text ps = x # xs"
      by (cases "collect_text ps") (simp_all add: collect_text_Nil_iff)
    then have "x \<in> set (collect_text ps)" by simp
    then obtain ch where "ch \<in> set x" "\<not> is_space ch" using collect_text_nonspace by blast
    moreover have "set x \<subseteq> set (join [nl] (collect_text ps))" unfolding c by (rule join_first_subset)
    ultimately have "\<not> (\<forall>c\<in>set (join [nl] (collect_text ps)). is_space c)" by blast
    with a show False by (simp add: trim_Nil_iff)
  qed
next
  assume "list_all blank_part ps"
  then have "collect_text ps = []" by (simp add: collect_text_Nil_iff)
  then show "trim (join [nl] (collect_text ps)) = []" by (simp add: trim_def)
qed

text \<open>
  C5, as amended. With no candidates both pipelines fail. In the solve pipeline the first
  candidate is taken: when its parts give no text the extraction fails with "Gemini response
  missing text" unless the finish reason is \<^verbatim>\<open>MAX_TOKENS\<close>, in which case the empty text is
  passed on; when some part gives text, the trimmed texts of the parts joined by newlines are
  returned, whatever the finish reason. In the debug pipeline the first part of the first
  candidate is taken, and the extraction fails when it is missing or blank, whatever the
  finish reason.
\<close>

theorem gemini_extraction:
  "(candidates r = [] \<longrightarrow>
      (\<exists>e. gemini_extract r = Inl e) \<and> (\<exists>e. gemini_extract_debug r = Inl e)) \<and>
   (candidates r = first # rest \<longrightarrow>
      (list_all blank_part (cand_parts first) \<and> finishReason first \<noteq> MAX_TOKENS \<longrightarrow>
         gemini_extract r = Inl (Error (ascii ''Gemini response missing text''))) \<and>
      (list_all blank_part (cand_parts first) \<and> finishReason first = MAX_TOKENS \<longrightarrow>
         gemini_extract r = Inr []) \<and>
      (\<not> list_all blank_part (cand_parts first) \<longrightarrow>
         trim (join [nl] (collect_text (cand_parts first))) \<noteq> [] \<and>
         gemini_extract r = Inr (trim (join [nl] (collect_text (cand_parts first))))) \<and>
      (cand_parts first = [] \<or> blank_part (hd (cand_parts first)) \<longrightarrow>
         (\<exists>e. gemini_extract_debug r = Inl e)) \<and>
      (cand_parts first \<noteq> [] \<and> \<not> blank_part (hd (cand_parts first)) \<longrightarrow>
         gemini_extract_debug r = Inr (opt_string (hd (cand_parts first)))))"
proof -
  have a: "candidates r = [] \<longrightarrow>
      (\<exists>e. gemini_extract r = Inl e) \<and> (\<exists>e. gemini_extract_debug r = Inl e)"
    by (simp add: gemini_extract_def gemini_extract_debug_def)
  have b: "candidates r = first # rest \<longrightarrow>
      (list_all blank_part (cand_parts first) \<and> finishReason first \<noteq> MAX_TOKENS \<longrightarrow>
         gemini_extract r = Inl (Error (ascii ''Gemini response missing text''))) \<and>
      (list_all blank_part (cand_parts first) \<and> finishReason first = MAX_TOKENS \<longrightarrow>
         gemini_extract r = Inr []) \<and>
      (\<not> list_all blank_part (cand_parts first) \<longrightarrow>
         trim (join [nl] (collect_text (cand_parts first))) \<noteq> [] \<and>
         gemini_extract r = Inr (trim (join [nl] (collect_text (cand_parts first)))))"
    using gemini_text_blank_iff [of "cand_parts first"]
    by (auto simp: gemini_extract_def Let_def)
  have c: "candidates r = first # rest \<longrightarrow>
      (cand_parts first = [] \<or> blank_part (hd (cand_parts first)) \<longrightarrow>
         (\<exists>e. gemini_extract_debug r = Inl e)) \<and>
      (cand_parts first \<noteq> [] \<and> \<not> blank_part (hd (cand_parts first)) \<longrightarrow>
         gemini_extract_debug r = Inr (opt_string (hd (cand_parts first))))"
    by (cases "cand_parts first")
       (auto simp: gemini_extract_debug_def Let_def blank_part_def trim_Nil_list_all)
  from a b c show ?thesis by blast
qed

theorem gemini_extraction_witness:
  "candidates (gemini_text (ascii '' '') MAX_TOKENS) =
     \<lparr>cand_parts = [Some (ascii '' '')], finishReason = MAX_TOKENS\<rparr> # [] \<and>
   list_all blank_part [Some (ascii '' '')] \<and>
   gemini_extract (gemini_text (ascii '' '') MAX_TOKENS) = Inr [] \<and>
   (\<exists>e. gemini_extract_debug (gemini_text (ascii '' '') MAX_TOKENS) = Inl e) \<and>
   candidates (gemini_text (ascii ''B'') (ascii ''STOP'')) =
     \<lparr>cand_parts = [Some (ascii ''B'')], finishReason = ascii ''STOP''\<rparr> # [] \<and>
   \<not> blank_part (Some (ascii ''B'')) \<and>
   gemini_extract_debug (gemini_text (ascii ''B'') (ascii ''STOP'')) = Inr (ascii ''B'')"
proof -
  have a: "candidates (gemini_text (ascii '' '') MAX_TOKENS) =
     \<lparr>cand_parts = [Some (ascii '' '')], finishReason = MAX_TOKENS\<rparr> # []"
    by (simp add: gemini_text_def)
  have b: "list_all blank_part [Some (ascii '' '')]"
    by (simp add: blank_part_def opt_string_def ascii_def is_space_def)
  have c: "candidates (gemini_text (ascii ''B'') (ascii ''STOP'')) =
     \<lparr>cand_parts = [Some (ascii ''B'')], finishReason = ascii ''STOP''\<rparr> # []"
    by (simp add: gemini_text_def)
  have d: "\<not> blank_part (Some (ascii ''B''))"
    by (simp add: blank_part_def opt_string_def ascii_def is_space_def)
  from a b c d
    gemini_extraction [of "gemini_text (ascii '' '') MAX_TOKENS"
      "\<lparr>cand_parts = [Some (ascii '' '')], finishReason = MAX_TOKENS\<rparr>" "[]"]
    gemini_extraction [of "gemini_text (ascii ''B'') (ascii ''STOP'')"
      "\<lparr>cand_parts = [Some (ascii ''B'')], finishReason = ascii ''STOP''\<rparr>" "[]"]
  show ?thesis by (simp add: opt_string_def)
qed

text \<open>
  C5 as stated fails in the debug pipeline: a first candidate truncated at \<^verbatim>\<open>MAX_TOKENS\<close>
  whose text is blank is not accepted there.
\<close>

theorem debug_truncated_counterexample:
  "finishReason (hd (candidates (gemini_text (ascii '' '') MAX_TOKENS))) = MAX_TOKENS \<and>
   gemini_extract_debug (gemini_text (ascii '' '') MAX_TOKENS) =
     Inl (Error (ascii ''Gemini response missing text content''))"
  by (simp add: gemini_text_def gemini_extract_debug_def opt_string_def trim_def ascii_def
        is_space_def)

section \<open>The requests of the solve pipeline\<close>

lemma data_url_payload_prefix: "data_url_payload (ascii ''data:image/png;base64,'' @ d) = d"
proof -
  have "strip_prefix (ascii ''data:image/png;base64,'') (ascii ''data:image/png;base64,'' @ d) = Some d"
    by (simp only: strip_prefix_iff)
  then show ?thesis by (simp only: data_url_payload_def option.case)
qed

lemma map_filter_images: "List.map_filter (\<lambda>v. case v of VImage d \<Rightarrow> Some d | VText t \<Rightarrow> None) (map VImage imgs @ vs) =
    imgs @ List.map_filter (\<lambda>v. case v of VImage d \<Rightarrow> Some d | VText t \<Rightarrow> None) vs"
  by (induction imgs) (simp_all add: map_filter_simps)

lemma openai_view:
  "map openai_part_view (openai_solve_content instr imgs) = VText instr # map VImage imgs"
  by (simp add: openai_solve_content_def openai_part_view_def data_url_payload_prefix comp_def)

lemma gemini_view:
  "map gemini_part_view (gemini_solve_parts instr imgs) = map VImage imgs @ [VText instr]"
  by (simp add: gemini_solve_parts_def gemini_part_view_def comp_def)

lemma anthropic_view:
  "map anthropic_block_view (anthropic_solve_content instr imgs) = VText instr # map VImage imgs"
  by (simp add: anthropic_solve_content_def anthropic_block_view_def comp_def)

lemma images_of_text_first:
  "request_view r = VText instr # map VImage imgs \<Longrightarrow> images_of r = imgs"
  using map_filter_images [of imgs "[]"] by (simp add: images_of_def map_filter_simps)

lemma images_of_text_last:
  "request_view r = map VImage imgs @ [VText instr] \<Longrightarrow> images_of r = imgs"
  using map_filter_images [of imgs "[VText instr]"] by (simp add: images_of_def map_filter_simps)

lemma requests_initialize: "requests (initializeAIClient l s) = requests s"
  by (cases l) (simp_all add: initializeAIClient_def clear_clients_def Let_def split: provider.splits)

lemma openai_client_after:
  assumes "apiProvider cfg = OpenAI" and "openaiClient s \<noteq> None \<or> apiKey cfg \<noteq> []"
  shows "openaiClient (if openaiClient s = None then initializeAIClient (Inr cfg) s else s) \<noteq> None"
  using assms by (auto simp: initializeAIClient_def)

lemma anthropic_client_after:
  assumes "apiProvider cfg = Anthropic" and "anthropicClient s \<noteq> None \<or> apiKey cfg \<noteq> []"
  shows "anthropicClient (if anthropicClient s = None then initializeAIClient (Inr cfg) s else s) \<noteq> None"
  using assms by (auto simp: initializeAIClient_def Let_def)

lemma openai_client_none:
  assumes "apiProvider cfg = OpenAI" and "openaiClient s = None" and "apiKey cfg = []"
  shows "openaiClient (initializeAIClient (Inr cfg) s) = None"
  using assms by (simp add: initializeAIClient_def clear_clients_def)

lemma anthropic_client_none:
  assumes "apiProvider cfg = Anthropic" and "anthropicClient s = None" and "apiKey cfg = []"
  shows "anthropicClient (initializeAIClient (Inr cfg) s) = None"
  using assms by (simp add: initializeAIClient_def clear_clients_def Let_def)

lemma helper_request_issues:
  assumes "client_ready cfg s"
  shows "\<exists>r s'. helper_request cfg wl imgs s = (Inr (), s') \<and>
           requests s' = requests s @ [r] \<and>
           request_provider r = apiProvider cfg \<and>
           request_view r = vendor_order (apiProvider cfg) (instruction (getLanguage cfg wl)) imgs \<and>
           images_of r = imgs \<and> length (images_of r) = length imgs \<and> media_tagged r"
proof (cases "apiProvider cfg")
  case OpenAI
  let ?r = "OpenAIChat (openaiModel cfg)
              [UserMessage (openai_solve_content (instruction (getLanguage cfg wl)) imgs)]"
  let ?s1 = "if openaiClient s = None then initializeAIClient (Inr cfg) s else s"
  from assms OpenAI have "openaiClient s \<noteq> None \<or> apiKey cfg \<noteq> []"
    by (simp add: client_ready_def)
  then have c: "openaiClient ?s1 \<noteq> None" by (rule openai_client_after [OF OpenAI])
  have h: "helper_request cfg wl imgs s = (Inr (), issue ?r ?s1)"
    using c by (simp add: helper_request_def OpenAI Let_def)
  have q: "requests (issue ?r ?s1) = requests s @ [?r]"
    by (simp add: issue_def requests_initialize)
  have v: "request_view ?r = VText (instruction (getLanguage cfg wl)) # map VImage imgs"
    by (simp add: openai_view)
  have i: "images_of ?r = imgs" using v by (rule images_of_text_first)
  have m: "media_tagged ?r"
    by (simp add: openai_solve_content_def list_all_iff strip_prefix_iff)
  have "helper_request cfg wl imgs s = (Inr (), issue ?r ?s1) \<and>
        requests (issue ?r ?s1) = requests s @ [?r] \<and>
        request_provider ?r = apiProvider cfg \<and>
        request_view ?r = vendor_order (apiProvider cfg) (instruction (getLanguage cfg wl)) imgs \<and>
        images_of ?r = imgs \<and> length (images_of ?r) = length imgs \<and> media_tagged ?r"
    using h q v i m OpenAI by (simp add: vendor_order_def)
  then show ?thesis by blast
next
  case Gemini
  let ?r = "GeminiGenerate (gemini_url cfg s)
              (gemini_solve_parts (instruction (getLanguage cfg wl)) imgs)"
  from assms Gemini have c: "geminiApiKey s \<noteq> None" by (simp add: client_ready_def)
  have h: "helper_request cfg wl imgs s = (Inr (), issue ?r s)"
    using c by (simp add: helper_request_def Gemini Let_def)
  have q: "requests (issue ?r s) = requests s @ [?r]" by (simp add: issue_def)
  have v: "request_view ?r = map VImage imgs @ [VText (instruction (getLanguage cfg wl))]"
    by (simp add: gemini_view)
  have i: "images_of ?r = imgs" using v by (rule images_of_text_last)
  have m: "media_tagged ?r" by (simp add: gemini_solve_parts_def list_all_iff)
  have "helper_request cfg wl imgs s = (Inr (), issue ?r s) \<and>
        requests (issue ?r s) = requests s @ [?r] \<and>
        request_provider ?r = apiProvider cfg \<and>
        request_view ?r = vendor_order (apiProvider cfg) (instruction (getLanguage cfg wl)) imgs \<and>
        images_of ?r = imgs \<and> length (images_of ?r) = length imgs \<and> media_tagged ?r"
    using h q v i m Gemini by (simp add: vendor_order_def)
  then show ?thesis by blast
next
  case Anthropic
  let ?r = "AnthropicMessages (anthropicModel cfg)
              (anthropic_solve_content (instruction (getLanguage cfg wl)) imgs)"
  let ?s1 = "if anthropicClient s = None then initializeAIClient (Inr cfg) s else s"
  from assms Anthropic have "anthropicClient s \<noteq> None \<or> apiKey cfg \<noteq> []"
    by (simp add: client_ready_def)
  then have c: "anthropicClient ?s1 \<noteq> None" by (rule anthropic_client_after [OF Anthropic])
  have h: "helper_request cfg wl imgs s = (Inr (), issue ?r ?s1)"
    using c by (simp add: helper_request_def Anthropic Let_def)
  have q: "requests (issue ?r ?s1) = requests s @ [?r]"
    by (simp add: issue_def requests_initialize)
  have v: "request_view ?r = VText (instruction (getLanguage cfg wl)) # map VImage imgs"
    by (simp add: anthropic_view)
  have i: "images_of ?r = imgs" using v by (rule images_of_text_first)
  have m: "media_tagged ?r" by (simp add: anthropic_solve_content_def list_all_iff)
  have "helper_request cfg wl imgs s = (Inr (), issue ?r ?s1) \<and>
        requests (issue ?r ?s1) = requests s @ [?r] \<and>
        request_provider ?r = apiProvider cfg \<and>
        request_view ?r = vendor_order (apiProvider cfg) (instruction (getLanguage cfg wl)) imgs \<and>
        images_of ?r = imgs \<and> length (images_of ?r) = length imgs \<and> media_tagged ?r"
    using h q v i m Anthropic by (simp add: vendor_order_def)
  then show ?thesis by blast
next
  case OtherProvider
  with assms show ?thesis by (simp add: client_ready_def)
qed

lemma helper_request_refuses:
  assumes "\<not> client_ready cfg s"
  shows "\<exists>m s'. helper_request cfg wl imgs s = (Inl (Failure m), s') \<and> requests s' = requests s"
proof (cases "apiProvider cfg")
  case OpenAI
  with assms have n: "openaiClient s = None" "apiKey cfg = []" by (simp_all add: client_ready_def)
  from openai_client_none [OF OpenAI n] n(1) show ?thesis
    by (simp add: helper_request_def OpenAI Let_def requests_initialize)
next
  case Gemini
  with assms have "geminiApiKey s = None" by (simp add: client_ready_def)
  then show ?thesis by (simp add: helper_request_def Gemini Let_def)
next
  case Anthropic
  with assms have n: "anthropicClient s = None" "apiKey cfg = []" by (simp_all add: client_ready_def)
  from anthropic_client_none [OF Anthropic n] n(1) show ?thesis
    by (simp add: helper_request_def Anthropic Let_def requests_initialize)
next
  case OtherProvider
  then show ?thesis by (simp add: helper_request_def Let_def)
qed

text \<open>
  C4. For each of the three providers and any list of images, when the solve helper
  \<^verbatim>\<open>processScreenshotsHelper\<close> has or can make a client for the configured provider, it
  issues exactly one request: the request goes to that provider, is a single user content (no
  system message), holds exactly the images of the list, in the order of the list, each
  tagged as PNG data (in the data URL of a chat completion, in the MIME type of a generate
  call, and as base64 source with a media type in a messages call), and has the instruction
  text first for a chat completion and for a messages call, and last for a generate call.
  Otherwise (no client and no key, or another provider) the helper returns a failure and
  issues no request.
\<close>

theorem solve_request_shape:
  "(client_ready cfg s \<longrightarrow>
      (\<exists>r s'. helper_request cfg wl imgs s = (Inr (), s') \<and>
         requests s' = requests s @ [r] \<and>
         request_provider r = apiProvider cfg \<and>
         request_view r = vendor_order (apiProvider cfg) (instruction (getLanguage cfg wl)) imgs \<and>
         images_of r = imgs \<and> length (images_of r) = length imgs \<and> media_tagged r)) \<and>
   (\<not> client_ready cfg s \<longrightarrow>
      (\<exists>m s'. helper_request cfg wl imgs s = (Inl (Failure m), s') \<and> requests s' = requests s))"
  using helper_request_issues [of cfg s wl imgs] helper_request_refuses [of cfg s wl imgs]
  by blast

text \<open>
  A helper with nothing configured and a configuration with a key, for OpenAI and for
  Anthropic (the helper initializes the client), and a helper that holds a Gemini key.
\<close>

theorem solve_request_shape_witness:
  "client_ready (cfg_of OpenAI (ascii ''sk-1'')) helper0 \<and>
   (\<exists>r s'. helper_request (cfg_of OpenAI (ascii ''sk-1'')) None two_images helper0 = (Inr (), s') \<and>
      requests s' = requests helper0 @ [r] \<and> request_provider r = OpenAI \<and>
      request_view r =
        [VText (instruction (ascii ''python'')), VImage (ascii ''QUJD''), VImage (ascii ''REVG'')] \<and>
      images_of r = two_images \<and> length (images_of r) = length two_images \<and> media_tagged r) \<and>
   client_ready (cfg_of Anthropic (ascii ''key-2'')) helper0 \<and>
   (\<exists>r s'. helper_request (cfg_of Anthropic (ascii ''key-2'')) None two_images helper0 = (Inr (), s') \<and>
      requests s' = requests helper0 @ [r] \<and> request_provider r = Anthropic \<and>
      request_view r =
        [VText (instruction (ascii ''python'')), VImage (ascii ''QUJD''), VImage (ascii ''REVG'')] \<and>
      images_of r = two_images \<and> length (images_of r) = length two_images \<and> media_tagged r) \<and>
   client_ready cfg_gemini helper_gemini \<and>
   (\<exists>r s'. helper_request cfg_gemini None two_images helper_gemini = (Inr (), s') \<and>
      requests s' = requests helper_gemini @ [r] \<and> request_provider r = Gemini \<and>
      request_view r =
        [VImage (ascii ''QUJD''), VImage (ascii ''REVG''), VText (instruction (ascii ''python''))] \<and>
      images_of r = two_images \<and> length (images_of r) = length two_images \<and> media_tagged r) \<and>
   \<not> client_ready (cfg_of OpenAI []) helper0 \<and>
   (\<exists>m s'. helper_request (cfg_of OpenAI []) None two_images helper0 = (Inl (Failure m), s') \<and>
      requests s' = requests helper0)"
proof -
  have a: "client_ready (cfg_of OpenAI (ascii ''sk-1'')) helper0"
    by (simp add: client_ready_def cfg_of_def ascii_def)
  have b: "client_ready (cfg_of Anthropic (ascii ''key-2'')) helper0"
    by (simp add: client_ready_def cfg_of_def ascii_def)
  have c: "client_ready cfg_gemini helper_gemini"
    by (simp add: client_ready_def cfg_gemini_def helper_gemini_def helper0_def cfg_of_def
          initializeAIClient_def ascii_def)
  have d: "\<not> client_ready (cfg_of OpenAI []) helper0"
    by (simp add: client_ready_def cfg_of_def helper0_def)
  have p: "apiProvider (cfg_of OpenAI (ascii ''sk-1'')) = OpenAI"
    "apiProvider (cfg_of Anthropic (ascii ''key-2'')) = Anthropic"
    "apiProvider cfg_gemini = Gemini"
    by (simp_all add: cfg_of_def cfg_gemini_def)
  have l: "getLanguage (cfg_of OpenAI (ascii ''sk-1'')) None = ascii ''python''"
    "getLanguage (cfg_of Anthropic (ascii ''key-2'')) None = ascii ''python''"
    "getLanguage cfg_gemini None = ascii ''python''"
    by (simp_all add: getLanguage_def cfg_of_def cfg_gemini_def ascii_def)
  have v: "vendor_order OpenAI (instruction (ascii ''python'')) two_images =
             [VText (instruction (ascii ''python'')), VImage (ascii ''QUJD''), VImage (ascii ''REVG'')]"
    "vendor_order Anthropic (instruction (ascii ''python'')) two_images =
             [VText (instruction (ascii ''python'')), VImage (ascii ''QUJD''), VImage (ascii ''REVG'')]"
    "vendor_order Gemini (instruction (ascii ''python'')) two_images =
             [VImage (ascii ''QUJD''), VImage (ascii ''REVG''), VText (instruction (ascii ''python''))]"
    by (simp_all add: vendor_order_def two_images_def)
  from a b c d
    solve_request_shape [of "cfg_of OpenAI (ascii ''sk-1'')" helper0 None two_images]
    solve_request_shape [of "cfg_of Anthropic (ascii ''key-2'')" helper0 None two_images]
    solve_request_shape [of cfg_gemini helper_gemini None two_images]
    solve_request_shape [of "cfg_of OpenAI []" helper0 None two_images]
  show ?thesis unfolding p l v by blast
qed

section \<open>Runs of \<^verbatim>\<open>processScreenshots\<close>\<close>

lemma canceled_not_key_error: "\<not> is_key_error msg_canceled"
  by code_simp

lemma solve_catch_cancel: "is_cancel e \<Longrightarrow> solve_catch p e = Failure msg_canceled"
  by (simp add: solve_catch_def)

lemma helper_reply_rejected:
  "call_rejected cfg net e \<Longrightarrow> helper_reply cfg wl net s = (solve_catch (apiProvider cfg) e, s)"
  by (cases "apiProvider cfg") (simp_all add: call_rejected_def helper_reply_def Let_def)

lemma anthropic_debug_catch_failure: "\<exists>m. anthropic_debug_catch e = Failure m"
  by (simp add: anthropic_debug_catch_def)

lemma debug_reply_rejected:
  assumes "call_rejected cfg net e"
  shows "\<exists>m. debug_reply cfg net s = (Failure m, s)"
proof (cases "apiProvider cfg")
  case OpenAI
  with assms show ?thesis by (simp add: call_rejected_def debug_reply_def)
next
  case Gemini
  with assms show ?thesis by (simp add: call_rejected_def debug_reply_def)
next
  case Anthropic
  obtain m where "anthropic_debug_catch e = Failure m" using anthropic_debug_catch_failure by blast
  with assms Anthropic show ?thesis by (simp add: call_rejected_def debug_reply_def)
next
  case OtherProvider
  with assms show ?thesis by (simp add: call_rejected_def)
qed

lemma debug_result_failure:
  "debug_result (Failure m) s =
     (send (DEBUG_ERROR m) s)\<lparr>currentExtraProcessingAbortController := None\<rparr>"
  by (simp add: debug_result_def)

text \<open>
  C7, as amended. When the call of the configured provider is rejected as canceled, the run
  reports it on the error message of its pipeline and sends no success message: the solve
  run sends solution-error with the text "Processing was canceled by the user." and sets the
  view back to the queue, the debug run sends debug-error with the text of a failure. The
  \<^verbatim>\<open>catch\<close> blocks of \<^verbatim>\<open>processScreenshots\<close> do the same with a canceled error thrown to
  them. There is no separate message for a cancellation.
\<close>

theorem cancel_reported_as_error:
  assumes "call_rejected cfg net e" and "is_cancel e"
  shows "solve_end cfg wl net s =
           (send (INITIAL_SOLUTION_ERROR (ErrorMessage msg_canceled)) s)
             \<lparr>view := Queue, currentProcessingAbortController := None\<rparr> \<and>
         (\<exists>m. debug_end cfg net s =
            (send (DEBUG_ERROR m) s)\<lparr>currentExtraProcessingAbortController := None\<rparr>) \<and>
         sent (solve_throw e s) =
           sent s @ [INITIAL_SOLUTION_ERROR (ErrorObject e),
                     INITIAL_SOLUTION_ERROR (ErrorMessage msg_canceled)] \<and>
         sent (debug_throw e s) =
           sent s @ [DEBUG_ERROR (ascii ''Extra processing was canceled by the user.'')]"
proof -
  have a: "solve_end cfg wl net s =
           (send (INITIAL_SOLUTION_ERROR (ErrorMessage msg_canceled)) s)
             \<lparr>view := Queue, currentProcessingAbortController := None\<rparr>"
    by (simp add: solve_end_def helper_reply_rejected [OF assms(1)] solve_catch_cancel [OF assms(2)]
          solve_result_failure canceled_not_key_error)
  obtain m where "debug_reply cfg net s = (Failure m, s)"
    using debug_reply_rejected [OF assms(1)] by blast
  then have "debug_end cfg net s =
            (send (DEBUG_ERROR m) s)\<lparr>currentExtraProcessingAbortController := None\<rparr>"
    by (simp add: debug_end_def debug_result_failure)
  then have b: "\<exists>m. debug_end cfg net s =
            (send (DEBUG_ERROR m) s)\<lparr>currentExtraProcessingAbortController := None\<rparr>" ..
  have c: "sent (solve_throw e s) =
           sent s @ [INITIAL_SOLUTION_ERROR (ErrorObject e),
                     INITIAL_SOLUTION_ERROR (ErrorMessage msg_canceled)]"
    using assms(2) by (simp add: solve_throw_def send_def Let_def)
  have d: "sent (debug_throw e s) =
           sent s @ [DEBUG_ERROR (ascii ''Extra processing was canceled by the user.'')]"
    using assms(2) by (simp add: debug_throw_def send_def)
  from a b c d show ?thesis by blast
qed


theorem cancel_reported_as_error_witness:
  "call_rejected cfg_gemini (net_of (Rejected cancel_error)) cancel_error \<and> is_cancel cancel_error \<and>
   solve_end cfg_gemini None (net_of (Rejected cancel_error)) run_a_waiting =
     (send (INITIAL_SOLUTION_ERROR (ErrorMessage msg_canceled)) run_a_waiting)
       \<lparr>view := Queue, currentProcessingAbortController := None\<rparr> \<and>
   (\<exists>m. debug_end cfg_gemini (net_of (Rejected cancel_error)) run_a_waiting =
      (send (DEBUG_ERROR m) run_a_waiting)\<lparr>currentExtraProcessingAbortController := None\<rparr>)"
proof -
  have a: "call_rejected cfg_gemini (net_of (Rejected cancel_error)) cancel_error"
    by (simp add: call_rejected_def cfg_gemini_def cfg_of_def net_of_def)
  have b: "is_cancel cancel_error" by (simp add: cancel_error_def)
  from a b cancel_reported_as_error [OF a b, of None run_a_waiting] show ?thesis by blast
qed

text \<open>
  C7 as stated fails. A solve run waits for its Gemini call, the user cancels
  (\<^verbatim>\<open>cancelOngoingRequests\<close> aborts controller 0), the call is rejected as canceled: the
  window receives the solution-error message.
\<close>

theorem user_abort_counterexample:
  "aborted (cancelOngoingRequests run_a_waiting) = [0] \<and>
   sent (processScreenshots_end AwaitingSolve cfg_gemini None (net_of (Rejected cancel_error))
           (cancelOngoingRequests run_a_waiting)) =
     [INITIAL_START, NO_SCREENSHOTS, INITIAL_SOLUTION_ERROR (ErrorMessage msg_canceled)]"
  by code_simp


text \<open>What an initialization leaves alone.\<close>

lemma initialize_frame:
  "requests (initializeAIClient l s) = requests s"
  "problemInfo (initializeAIClient l s) = problemInfo s"
  "view (initializeAIClient l s) = view s"
  "sent (initializeAIClient l s) = sent s"
  "controllers (initializeAIClient l s) = controllers s"
  "aborted (initializeAIClient l s) = aborted s"
  "currentProcessingAbortController (initializeAIClient l s) = currentProcessingAbortController s"
  "currentExtraProcessingAbortController (initializeAIClient l s) = currentExtraProcessingAbortController s"
  "mainWindow (initializeAIClient l s) = mainWindow s"
  "screenshotQueue (initializeAIClient l s) = screenshotQueue s"
  "extraScreenshotQueue (initializeAIClient l s) = extraScreenshotQueue s"
  by (cases l; simp add: initializeAIClient_def clear_clients_def Let_def split: provider.splits)+

lemma verify_client_frame:
  assumes "verify_client cfg s = (b, s1)"
  shows "requests s1 = requests s" "problemInfo s1 = problemInfo s" "view s1 = view s"
    "controllers s1 = controllers s" "aborted s1 = aborted s"
    "currentProcessingAbortController s1 = currentProcessingAbortController s"
    "currentExtraProcessingAbortController s1 = currentExtraProcessingAbortController s"
    "screenshotQueue s1 = screenshotQueue s" "extraScreenshotQueue s1 = extraScreenshotQueue s"
  using assms
  by (auto simp: verify_client_def Let_def send_def initialize_frame split: if_splits)

lemma debug_request_no_context:
  "problemInfo s = None \<Longrightarrow> debug_request cfg wl imgs s = (Inl (Failure msg_no_problem_info), s)"
  by (simp add: debug_request_def)

lemma debug_begin_no_context:
  assumes "problemInfo s = None"
  shows "fst (debug_begin cfg wl s) = Returned \<and> requests (snd (debug_begin cfg wl s)) = requests s"
  using assms
  by (simp add: debug_begin_def Let_def new_controller_def send_def debug_request_def
        debug_throw_def debug_result_def)

lemma debug_begin_no_context_sent:
  assumes "problemInfo s = None"
    and "filter on_disk (extraScreenshotQueue s) \<noteq> []"
    and "valid_data (filter on_disk (screenshotQueue s @ filter on_disk (extraScreenshotQueue s))) \<noteq> []"
  shows "sent (snd (debug_begin cfg wl s)) = sent s @ [DEBUG_START, DEBUG_ERROR msg_no_problem_info]"
proof -
  from assms(2) have "extraScreenshotQueue s \<noteq> []" by auto
  with assms show ?thesis
    by (simp add: debug_begin_def Let_def new_controller_def send_def debug_request_def
        debug_result_def)
qed

text \<open>
  C8. With no problem info in the session, the debug helper returns the failure "No problem
  info available" and leaves the state as it is, so it issues no provider call; a whole run
  of \<^verbatim>\<open>processScreenshots\<close> outside the queue view issues no provider call either; and when the
  run has screenshots to send, it returns without waiting and the window receives debug-start
  and then debug-error with that text.
\<close>

theorem debug_without_context:
  assumes "problemInfo s = None"
  shows "processExtraScreenshotsHelper cfg wl net imgs s = (Failure msg_no_problem_info, s) \<and>
         (view s \<noteq> Queue \<longrightarrow> requests (processScreenshots cfg wl net s) = requests s) \<and>
         (filter on_disk (extraScreenshotQueue s) \<noteq> [] \<and>
          valid_data (filter on_disk (screenshotQueue s @ filter on_disk (extraScreenshotQueue s))) \<noteq> [] \<longrightarrow>
            fst (debug_begin cfg wl s) = Returned \<and>
            sent (snd (debug_begin cfg wl s)) = sent s @ [DEBUG_START, DEBUG_ERROR msg_no_problem_info])"
proof -
  have a: "processExtraScreenshotsHelper cfg wl net imgs s = (Failure msg_no_problem_info, s)"
    by (simp add: processExtraScreenshotsHelper_def debug_request_no_context [OF assms])
  have b: "view s \<noteq> Queue \<longrightarrow> requests (processScreenshots cfg wl net s) = requests s"
  proof
    assume v: "view s \<noteq> Queue"
    show "requests (processScreenshots cfg wl net s) = requests s"
    proof (cases "mainWindow s")
      case False
      then show ?thesis
        by (simp add: processScreenshots_def processScreenshots_begin_def processScreenshots_end_def)
    next
      case True
      obtain ok s1 where vc: "verify_client cfg s = (ok, s1)" by (cases "verify_client cfg s")
      note fr = verify_client_frame [OF vc]
      show ?thesis
      proof (cases ok)
        case False
        with True vc fr(1) show ?thesis
          by (simp add: processScreenshots_def processScreenshots_begin_def processScreenshots_end_def)
      next
        case ok: True
        from assms fr(2) have p1: "problemInfo s1 = None" by simp
        from debug_begin_no_context [OF p1, of cfg wl]
        have d: "fst (debug_begin cfg wl s1) = Returned"
          "requests (snd (debug_begin cfg wl s1)) = requests s1" by simp_all
        obtain s2 where db: "debug_begin cfg wl s1 = (Returned, s2)"
          using d(1) by (cases "debug_begin cfg wl s1") auto
        have "processScreenshots_begin cfg wl s = debug_begin cfg wl s1"
          using True vc ok v fr(3) by (simp add: processScreenshots_begin_def)
        then have "processScreenshots cfg wl net s = s2"
          using db by (simp add: processScreenshots_def processScreenshots_end_def)
        with d(2) db fr(1) show ?thesis by simp
      qed
    qed
  qed
  from a b debug_begin_no_context [OF assms, of cfg wl] debug_begin_no_context_sent [OF assms, of cfg wl]
  show ?thesis by blast
qed

theorem debug_without_context_witness:
  "problemInfo helper_debug = None \<and>
   processExtraScreenshotsHelper cfg_gemini None net_answer_b two_images helper_debug =
     (Failure msg_no_problem_info, helper_debug) \<and>
   view helper_debug \<noteq> Queue \<and>
   requests (processScreenshots cfg_gemini None net_answer_b helper_debug) = requests helper_debug \<and>
   filter on_disk (extraScreenshotQueue helper_debug) \<noteq> [] \<and>
   valid_data (filter on_disk (screenshotQueue helper_debug @
                               filter on_disk (extraScreenshotQueue helper_debug))) \<noteq> [] \<and>
   fst (debug_begin cfg_gemini None helper_debug) = Returned \<and>
   sent (snd (debug_begin cfg_gemini None helper_debug)) =
     sent helper_debug @ [DEBUG_START, DEBUG_ERROR msg_no_problem_info] \<and>
   sent (processScreenshots cfg_gemini None net_answer_b helper_debug) =
     [DEBUG_START, DEBUG_ERROR msg_no_problem_info]"
proof -
  have a: "problemInfo helper_debug = None" by code_simp
  have b: "view helper_debug \<noteq> Queue" by code_simp
  have c: "filter on_disk (extraScreenshotQueue helper_debug) \<noteq> []" by code_simp
  have d: "valid_data (filter on_disk (screenshotQueue helper_debug @
                               filter on_disk (extraScreenshotQueue helper_debug))) \<noteq> []"
    by code_simp
  have e: "sent (processScreenshots cfg_gemini None net_answer_b helper_debug) =
     [DEBUG_START, DEBUG_ERROR msg_no_problem_info]" by code_simp
  from a b c d e debug_without_context [OF a, of cfg_gemini None net_answer_b two_images]
  show ?thesis by blast
qed


lemma helper_request_frame:
  assumes "helper_request cfg wl imgs s = (x, s')"
  shows "controllers s' = controllers s" "aborted s' = aborted s"
    "currentProcessingAbortController s' = currentProcessingAbortController s"
    "currentExtraProcessingAbortController s' = currentExtraProcessingAbortController s"
  using assms
  by (cases "apiProvider cfg";
      auto simp: helper_request_def Let_def issue_def initialize_frame split: if_splits)+

lemma debug_request_frame:
  assumes "debug_request cfg wl imgs s = (x, s')"
  shows "controllers s' = controllers s" "aborted s' = aborted s"
    "currentProcessingAbortController s' = currentProcessingAbortController s"
    "currentExtraProcessingAbortController s' = currentExtraProcessingAbortController s"
  using assms
  by (cases "apiProvider cfg";
      auto simp: debug_request_def Let_def issue_def send_if_window_def send_def debug_finish_def
           split: if_splits option.splits)+

lemma solve_begin_awaiting:
  assumes "solve_begin cfg wl s = (r, s')" and "r \<noteq> Returned"
  shows "r = AwaitingSolve \<and> currentProcessingAbortController s' = Some (controllers s) \<and>
         controllers s' = Suc (controllers s) \<and>
         currentExtraProcessingAbortController s' = currentExtraProcessingAbortController s \<and>
         aborted s' = aborted s"
proof -
  let ?s3 = "(send INITIAL_START s)\<lparr>controllers := Suc (controllers s),
               currentProcessingAbortController := Some (controllers s)\<rparr>"
  let ?v = "valid_data (filter on_disk (screenshotQueue s))"
  from assms have q: "screenshotQueue s \<noteq> []" "filter on_disk (screenshotQueue s) \<noteq> []" "?v \<noteq> []"
    by (auto simp: solve_begin_def Let_def send_def new_controller_def split: if_splits)
  obtain x s4 where h: "helper_request cfg wl ?v ?s3 = (x, s4)"
    by (cases "helper_request cfg wl ?v ?s3")
  from assms q h have "r = AwaitingSolve \<and> s' = s4"
    by (auto simp: solve_begin_def Let_def send_def new_controller_def split: sum.splits)
  with helper_request_frame [OF h] show ?thesis by (simp add: send_def)
qed

lemma debug_begin_awaiting:
  assumes "debug_begin cfg wl s = (r, s')" and "r \<noteq> Returned"
  shows "r = AwaitingDebug \<and> currentExtraProcessingAbortController s' = Some (controllers s) \<and>
         controllers s' = Suc (controllers s) \<and>
         currentProcessingAbortController s' = currentProcessingAbortController s \<and>
         aborted s' = aborted s"
proof -
  let ?s3 = "(send DEBUG_START s)\<lparr>controllers := Suc (controllers s),
               currentExtraProcessingAbortController := Some (controllers s)\<rparr>"
  let ?v = "valid_data (filter on_disk (screenshotQueue s @ filter on_disk (extraScreenshotQueue s)))"
  from assms have q: "extraScreenshotQueue s \<noteq> []" "filter on_disk (extraScreenshotQueue s) \<noteq> []"
      "?v \<noteq> []"
    by (auto simp: debug_begin_def Let_def send_def new_controller_def split: if_splits)
  obtain x s4 where h: "debug_request cfg wl ?v ?s3 = (x, s4)"
    by (cases "debug_request cfg wl ?v ?s3")
  from assms q h have "r = AwaitingDebug \<and> s' = s4"
    by (auto simp: debug_begin_def Let_def send_def new_controller_def split: sum.splits)
  with debug_request_frame [OF h] show ?thesis by (simp add: send_def)
qed

lemma begin_awaiting:
  assumes "processScreenshots_begin cfg wl s = (r, s')" and "r \<noteq> Returned"
  shows "controllers s' = Suc (controllers s) \<and> aborted s' = aborted s \<and>
         (r = AwaitingSolve \<longrightarrow>
            currentProcessingAbortController s' = Some (controllers s) \<and>
            currentExtraProcessingAbortController s' = currentExtraProcessingAbortController s) \<and>
         (r = AwaitingDebug \<longrightarrow>
            currentExtraProcessingAbortController s' = Some (controllers s) \<and>
            currentProcessingAbortController s' = currentProcessingAbortController s)"
proof -
  from assms have w: "mainWindow s" by (auto simp: processScreenshots_begin_def split: if_splits)
  obtain ok s1 where vc: "verify_client cfg s = (ok, s1)" by (cases "verify_client cfg s")
  note fr = verify_client_frame [OF vc]
  from assms w vc have ok: "ok" by (cases ok) (auto simp: processScreenshots_begin_def)
  show ?thesis
  proof (cases "view s1 = Queue")
    case True
    with assms w vc ok have "solve_begin cfg wl s1 = (r, s')"
      by (simp add: processScreenshots_begin_def)
    from solve_begin_awaiting [OF this assms(2)] fr show ?thesis by simp
  next
    case False
    with assms w vc ok have "debug_begin cfg wl s1 = (r, s')"
      by (simp add: processScreenshots_begin_def)
    from debug_begin_awaiting [OF this assms(2)] fr show ?thesis by simp
  qed
qed

lemma classify_and_publish_frame:
  "aborted (snd (classify_and_publish p l t s)) = aborted s"
  by (simp add: classify_and_publish_def Let_def send_if_window_def send_def
        split: sum.splits prod.splits)

lemma helper_reply_aborted: "aborted (snd (helper_reply cfg wl net s)) = aborted s"
  by (cases "apiProvider cfg")
     (simp_all add: helper_reply_def Let_def classify_and_publish_frame
        split: outcome.splits sum.splits)

lemma solve_end_slot:
  "currentProcessingAbortController (solve_end cfg wl net s) = None \<and>
   aborted (solve_end cfg wl net s) = aborted s"
proof -
  obtain r s1 where h: "helper_reply cfg wl net s = (r, s1)" by (cases "helper_reply cfg wl net s")
  with helper_reply_aborted [of cfg wl net s] have "aborted s1 = aborted s" by simp
  with h show ?thesis
    by (cases r) (simp_all add: solve_end_def solve_result_def Let_def send_def)
qed

lemma debug_finish_aborted: "aborted (snd (debug_finish d s)) = aborted s"
  by (cases d) (simp_all add: debug_finish_def Let_def send_if_window_def send_def)

lemma debug_reply_aborted: "aborted (snd (debug_reply cfg net s)) = aborted s"
  by (cases "apiProvider cfg")
     (simp_all add: debug_reply_def debug_finish_aborted
        split: outcome.splits sum.splits list.splits anthropic_reply_block.splits)

lemma debug_end_slot:
  "currentExtraProcessingAbortController (debug_end cfg net s) = None \<and>
   aborted (debug_end cfg net s) = aborted s"
proof -
  obtain r s1 where h: "debug_reply cfg net s = (r, s1)" by (cases "debug_reply cfg net s")
  with debug_reply_aborted [of cfg net s] have "aborted s1 = aborted s" by simp
  with h show ?thesis
    by (cases r) (simp_all add: debug_end_def debug_result_def Let_def send_def)
qed

lemma cancel_slots:
  "currentProcessingAbortController (cancelOngoingRequests s) = None \<and>
   currentExtraProcessingAbortController (cancelOngoingRequests s) = None \<and>
   set (aborted (cancelOngoingRequests s)) =
     set (aborted s) \<union> set_option (currentProcessingAbortController s) \<union>
     set_option (currentExtraProcessingAbortController s)"
  by (cases "currentProcessingAbortController s"; cases "currentExtraProcessingAbortController s")
     (auto simp: cancelOngoingRequests_def Let_def send_def)

text \<open>
  C6, as amended. Each pipeline kind has one slot for the abort controller of its latest run.
  A process request that reaches its provider call makes a new controller, stores it in the
  slot of its kind and aborts nothing: a controller already in the slot is replaced, not
  canceled, and the slot of the other kind is left alone. A run empties the slot of its kind
  when it ends and aborts nothing. Only \<^verbatim>\<open>cancelOngoingRequests\<close> aborts: it aborts the
  controllers of both slots and empties them.
\<close>

theorem abort_slots:
  "(processScreenshots_begin cfg wl s = (r, s') \<and> r \<noteq> Returned \<longrightarrow>
      controllers s' = Suc (controllers s) \<and> aborted s' = aborted s \<and>
      (r = AwaitingSolve \<longrightarrow>
         currentProcessingAbortController s' = Some (controllers s) \<and>
         currentExtraProcessingAbortController s' = currentExtraProcessingAbortController s) \<and>
      (r = AwaitingDebug \<longrightarrow>
         currentExtraProcessingAbortController s' = Some (controllers s) \<and>
         currentProcessingAbortController s' = currentProcessingAbortController s)) \<and>
   currentProcessingAbortController (solve_end cfg wl net s) = None \<and>
   aborted (solve_end cfg wl net s) = aborted s \<and>
   currentExtraProcessingAbortController (debug_end cfg net s) = None \<and>
   aborted (debug_end cfg net s) = aborted s \<and>
   currentProcessingAbortController (cancelOngoingRequests s) = None \<and>
   currentExtraProcessingAbortController (cancelOngoingRequests s) = None \<and>
   set (aborted (cancelOngoingRequests s)) =
     set (aborted s) \<union> set_option (currentProcessingAbortController s) \<union>
     set_option (currentExtraProcessingAbortController s)"
  using begin_awaiting [of cfg wl s r s'] solve_end_slot [of cfg wl net s]
    debug_end_slot [of cfg net s] cancel_slots [of s]
  by blast


theorem abort_slots_witness:
  "processScreenshots_begin cfg_gemini None run_a_waiting = (AwaitingSolve, run_b_waiting) \<and>
   AwaitingSolve \<noteq> Returned \<and>
   controllers run_b_waiting = Suc (controllers run_a_waiting) \<and>
   aborted run_b_waiting = aborted run_a_waiting \<and>
   currentProcessingAbortController run_a_waiting = Some 0 \<and>
   currentProcessingAbortController run_b_waiting = Some (controllers run_a_waiting) \<and>
   currentProcessingAbortController (solve_end cfg_gemini None net_answer_b run_b_waiting) = None \<and>
   set (aborted (cancelOngoingRequests run_b_waiting)) =
     set (aborted run_b_waiting) \<union> set_option (currentProcessingAbortController run_b_waiting) \<union>
     set_option (currentExtraProcessingAbortController run_b_waiting)"
proof -
  have "fst (processScreenshots_begin cfg_gemini None run_a_waiting) = AwaitingSolve" by code_simp
  then have h: "processScreenshots_begin cfg_gemini None run_a_waiting = (AwaitingSolve, run_b_waiting)"
    by (simp add: run_b_waiting_def prod_eq_iff)
  have a: "currentProcessingAbortController run_a_waiting = Some 0" by code_simp
  from h a abort_slots [of cfg_gemini None run_a_waiting AwaitingSolve run_b_waiting net_answer_b]
    abort_slots [of cfg_gemini None run_b_waiting Returned run_b_waiting net_answer_b]
  show ?thesis by simp
qed

text \<open>
  C6 as stated fails. A solve run waits for its call with controller 0; a second solve
  request starts, stores controller 1 and aborts nothing; then the call of the first run
  resolves, and the superseded run sends its success message and empties the slot.
\<close>

theorem superseded_run_counterexample:
  "fst (processScreenshots_begin cfg_gemini None helper_gemini) = AwaitingSolve \<and>
   currentProcessingAbortController run_a_waiting = Some 0 \<and>
   fst (processScreenshots_begin cfg_gemini None run_a_waiting) = AwaitingSolve \<and>
   currentProcessingAbortController run_b_waiting = Some 1 \<and>
   aborted run_b_waiting = [] \<and>
   last (sent run_a_done) =
     SOLUTION_SUCCESS \<lparr>answer_type = Analysis, content = ascii ''B'', code = None,
        final_answer = Some (ascii ''B''), thoughts = None, time_complexity = None,
        space_complexity = None,
        key_takeaways = Some [ [0x6B63, 0x786E, 0x9009, 0x9879, 0xFF1A, 0x42] ]\<rparr> \<and>
   currentProcessingAbortController run_a_done = None"
  by code_simp

end
